theory Spec2Isabelle
  imports Main "HOL-Library.Word" "HOL-Library.Sublist"
begin

unbundle bit_operations_syntax

section \<open>Errors, panics and the structs of docker.go\<close>

text \<open>
  A Go \<^verbatim>\<open>error\<close> value is identified by its message; \<^verbatim>\<open>nil\<close> is \<open>None\<close>.
  A call either returns or panics; the only panic of \<^verbatim>\<open>Start\<close> and \<^verbatim>\<open>Stop\<close>
  themselves is the slice expression \<^verbatim>\<open>c.ID[:12]\<close> on a shorter string (the
  provider and the logger of a container are taken to be set, as
  \<^verbatim>\<open>CreateContainer\<close> and \<^verbatim>\<open>ReuseOrCreateContainer\<close> set them). A Go string
  is a sequence of bytes and \<^verbatim>\<open>len\<close> counts bytes, as \<open>length\<close> does here.
\<close>

type_synonym error = string

datatype panic =
    SliceBoundsOutOfRange nat nat   \<comment> \<open>\<^verbatim>\<open>s[:hi]\<close> with \<^verbatim>\<open>hi > len(s)\<close>: bound and length\<close>
  | PanicError error               \<comment> \<open>\<^verbatim>\<open>panic(err)\<close>\<close>

datatype 'a outcome = Panics panic | Returns 'a

text \<open>
  \<^verbatim>\<open>wait.Strategy\<close> is an interface declared outside this file; the only thing
  \<^verbatim>\<open>Start\<close> does with it is to call \<^verbatim>\<open>WaitUntilReady(ctx, c)\<close> and look at the
  error. A strategy is therefore taken as what that call returns for a container ID.
  What a strategy itself asks of the engine while it waits (reading logs, inspecting
  ports) belongs to the strategy, not to \<^verbatim>\<open>Start\<close>, and is not recorded.
\<close>

datatype Strategy = Strategy (WaitUntilReady: "string \<Rightarrow> error option")

text \<open>
  A \<^verbatim>\<open>LogConsumer\<close> is an interface with the one method \<^verbatim>\<open>Accept\<close>. A consumer is
  known by a number, and what happens to it is the sequence of logs it is given.
\<close>

type_synonym LogConsumer = nat

text \<open>
  A Go map is a reference: two variables may hold the same map, and a write through one
  is seen through the other. The label maps live in a heap of cells; a map value is the
  number of its cell and \<^verbatim>\<open>nil\<close> is \<open>None\<close>. \<^verbatim>\<open>make\<close> takes the next unused cell.
\<close>

type_synonym labels = "string \<rightharpoonup> string"

record heap =
  cells :: "nat \<Rightarrow> labels"
  fresh :: nat

definition make_map :: "heap \<Rightarrow> nat \<times> heap" where
  "make_map h = (fresh h, h\<lparr>cells := (cells h)(fresh h := Map.empty), fresh := Suc (fresh h)\<rparr>)"

text \<open>
  The structs, with the fields that the functions below read or write. Several structs
  of the source share field names; the later declaration owns the short name, so the
  fields of \<open>DockerNetwork\<close>, \<open>NetworkRequest\<close> and \<open>ContainerRequest\<close> are written
  with the name of their record in front.
\<close>

record DockerNetwork =
  ID :: string
  Driver :: string
  Name :: string

record NetworkRequest =
  Driver :: string
  Name :: string
  Labels :: "nat option"
  SkipReaper :: bool
  ReaperImage :: string

record ContainerRequest =
  Name :: string
  Labels :: "nat option"
  Networks :: "string list"
  SkipReaper :: bool
  ReaperImage :: string
  WaitingFor :: "Strategy option"

record DockerContainer =
  ID :: string
  WaitingFor :: "Strategy option"
  Image :: string
  isRunning :: bool
  imageWasBuilt :: bool
  skipReaper :: bool
  consumers :: "LogConsumer list"

section \<open>Container lifecycle: Start and Stop\<close>

text \<open>Requests sent to the engine through \<^verbatim>\<open>c.provider.client\<close>, in the order sent.\<close>

datatype request =
    ContainerStart string
  | ContainerStop string "int option"
  | ContainerRemove string
  | ImageRemove string

text \<open>What the engine answers to the two requests used here.\<close>

record client =
  ContainerStart_result :: "string \<Rightarrow> error option"
  ContainerStop_result :: "string \<Rightarrow> int option \<Rightarrow> error option"

text \<open>
  The effect of one method call: what it returned (or the panic), the container
  afterwards, the engine requests it issued and the lines given to \<^verbatim>\<open>c.logger.Printf\<close>.
\<close>

record call =
  returned :: "error option outcome"
  after :: DockerContainer
  requests :: "request list"
  logged :: "string list"

definition Start :: "client \<Rightarrow> DockerContainer \<Rightarrow> call" where
  "Start cl c =
    (if length (ID c) < 12
     then \<lparr>returned = Panics (SliceBoundsOutOfRange 12 (length (ID c))),
           after = c, requests = [], logged = []\<rparr>
     else
       let shortID = take 12 (ID c);
           l1 = ''Starting container id: '' @ shortID @ '' image: '' @ Image c
       in case ContainerStart_result cl (ID c) of
            Some err \<Rightarrow>
              \<lparr>returned = Returns (Some err), after = c,
               requests = [ContainerStart (ID c)], logged = [l1]\<rparr>
          | None \<Rightarrow>
              (case WaitingFor c of
                 None \<Rightarrow>
                   \<lparr>returned = Returns None, after = c\<lparr>isRunning := True\<rparr>,
                    requests = [ContainerStart (ID c)],
                    logged = [l1, ''Container is ready id: '' @ shortID @ '' image: '' @ Image c]\<rparr>
               | Some s \<Rightarrow>
                   let l2 = ''Waiting for container id '' @ shortID @ '' image: '' @ Image c
                   in (case WaitUntilReady s (ID c) of
                         Some err \<Rightarrow>
                           \<lparr>returned = Returns (Some err), after = c,
                            requests = [ContainerStart (ID c)], logged = [l1, l2]\<rparr>
                       | None \<Rightarrow>
                           \<lparr>returned = Returns None, after = c\<lparr>isRunning := True\<rparr>,
                            requests = [ContainerStart (ID c)],
                            logged = [l1, l2,
                              ''Container is ready id: '' @ shortID @ '' image: '' @ Image c]\<rparr>)))"

definition Stop :: "client \<Rightarrow> DockerContainer \<Rightarrow> int option \<Rightarrow> call" where
  "Stop cl c timeout =
    (if length (ID c) < 12
     then \<lparr>returned = Panics (SliceBoundsOutOfRange 12 (length (ID c))),
           after = c, requests = [], logged = []\<rparr>
     else
       let shortID = take 12 (ID c);
           l1 = ''Stopping container id: '' @ shortID @ '' image: '' @ Image c
       in case ContainerStop_result cl (ID c) timeout of
            Some err \<Rightarrow>
              \<lparr>returned = Returns (Some err), after = c,
               requests = [ContainerStop (ID c) timeout], logged = [l1]\<rparr>
          | None \<Rightarrow>
              \<lparr>returned = Returns None, after = c\<lparr>isRunning := False\<rparr>,
               requests = [ContainerStop (ID c) timeout],
               logged = [l1, ''Container is stopped id: '' @ shortID @ '' image: '' @ Image c]\<rparr>)"

definition is_stop_or_remove :: "request \<Rightarrow> bool" where
  "is_stop_or_remove r =
    (case r of ContainerStop _ _ \<Rightarrow> True | ContainerRemove _ \<Rightarrow> True
             | ImageRemove _ \<Rightarrow> True | ContainerStart _ \<Rightarrow> False)"

section \<open>The log producer (StartLogProducer, StopLogProducer, FollowOutput)\<close>

subsection \<open>Formatting and string helpers of the Go library\<close>

text \<open>The decimal digits of a natural number, as \<^verbatim>\<open>fmt\<close> prints them.\<close>

definition digit_char :: "nat \<Rightarrow> char" where
  "digit_char d = char_of (48 + d)"

fun decimal :: "nat \<Rightarrow> string" where
  "decimal n = (if n < 10 then [digit_char n] else decimal (n div 10) @ [digit_char (n mod 10)])"

declare decimal.simps [simp del]

text \<open>\<^verbatim>\<open>%d\<close> of a signed integer and \<^verbatim>\<open>%09d\<close> of a non-negative one.\<close>

definition fmt_d :: "int \<Rightarrow> string" where
  "fmt_d i = (if i < 0 then CHR ''-'' # decimal (nat (- i)) else decimal (nat i))"

definition fmt_09d :: "nat \<Rightarrow> string" where
  "fmt_09d n = replicate (9 - length (decimal n)) CHR ''0'' @ decimal n"

text \<open>\<^verbatim>\<open>strings.Contains(s, substr)\<close>.\<close>

fun Contains :: "string \<Rightarrow> string \<Rightarrow> bool" where
  "Contains [] substr = (substr = [])"
| "Contains (c # s) substr = (prefix substr (c # s) \<or> Contains s substr)"

subsection \<open>The stream, the clock and the engine\<close>

type_synonym byte = "8 word"

text \<open>
  A reading of \<^verbatim>\<open>time.Now()\<close>: \<^verbatim>\<open>now.Unix()\<close> and \<^verbatim>\<open>now.Nanosecond()\<close>
  (the latter is in the range 0 to 999999999).
\<close>

record Time =
  Unix :: int
  Nanosecond :: nat

text \<open>
  The \<^verbatim>\<open>io.ReadCloser\<close> returned by \<^verbatim>\<open>ContainerLogs\<close> is what successive
  \<^verbatim>\<open>Read\<close> calls will find: a chunk of bytes that is available (stamped with the
  time at which it is read), or an error. As for every \<^verbatim>\<open>io.Reader\<close>,
  a \<^verbatim>\<open>Read\<close> into a buffer of \<open>n\<close> bytes returns at most \<open>n\<close> bytes of the chunk
  at hand and never waits for more; the rest of the buffer keeps the zeros of
  \<^verbatim>\<open>make\<close>. The source drops the byte count, so the model returns the buffer and
  the error only. A stream whose events are used up is at its end (\<^verbatim>\<open>io.EOF\<close>).
\<close>

datatype rd_event = Chunk Time "byte list" | Fail error

fun Read :: "nat \<Rightarrow> rd_event list \<Rightarrow> (byte list \<times> error option) \<times> rd_event list" where
  "Read n [] = ((replicate n 0, Some ''EOF''), [])"
| "Read n (Fail msg # es) = ((replicate n 0, Some msg), es)"
| "Read n (Chunk t bs # es) =
     ((take n bs @ replicate (n - length bs) 0, None),
      (if n < length bs then Chunk t (drop n bs) # es else es))"

record stream =
  events :: "rd_event list"
  Close_result :: "error option"

record ContainerLogsOptions =
  ShowStdout :: bool
  ShowStderr :: bool
  Follow :: bool
  Since :: string

text \<open>
  The world around the worker: the engine's answer to the \<open>k\<close>-th
  \<^verbatim>\<open>ContainerLogs\<close> request of this worker (container ID and options given), and
  the \<open>k\<close>-th reading of \<^verbatim>\<open>time.Now()\<close>.
\<close>

record world =
  ContainerLogs :: "nat \<Rightarrow> string \<Rightarrow> ContainerLogsOptions \<Rightarrow> error + stream"
  Now :: "nat \<Rightarrow> Time"

text \<open>\<^verbatim>\<open>binary.BigEndian.Uint32\<close> on a slice of at least four bytes.\<close>

definition BigEndian_Uint32 :: "byte list \<Rightarrow> 32 word" where
  "BigEndian_Uint32 b =
     ucast (b ! 3) OR push_bit 8 (ucast (b ! 2)) OR push_bit 16 (ucast (b ! 1))
       OR push_bit 24 (ucast (b ! 0))"

subsection \<open>Logs and consumers\<close>

text \<open>
  Modelled from the spec: the constants \<^verbatim>\<open>StdoutLog\<close> and \<^verbatim>\<open>StderrLog\<close> are
  declared outside the source files at hand; the spec calls the two kinds stdout and
  stderr. Only that they are two different non-empty strings is used below.
\<close>

definition StdoutLog :: string where
  "StdoutLog = ''stdout''"

definition StderrLog :: string where
  "StderrLog = ''stderr''"

record Log =
  LogType :: string
  Content :: "byte list"

definition FollowOutput :: "LogConsumer \<Rightarrow> DockerContainer \<Rightarrow> DockerContainer" where
  "FollowOutput consumer c =
     (if consumers c = [] then c\<lparr>consumers := [consumer]\<rparr>
      else c\<lparr>consumers := consumers c @ [consumer]\<rparr>)"

subsection \<open>The worker\<close>

datatype status = Running | Stopped | Panicked panic

text \<open>
  The worker's variables (\<open>since\<close>, \<open>reader\<close> for \<^verbatim>\<open>r\<close>), the container it
  points to, and what it has done so far: the \<^verbatim>\<open>ContainerLogs\<close> requests issued,
  the \<^verbatim>\<open>Accept\<close> calls made (consumer and log, in call order), the lines written
  to \<^verbatim>\<open>os.Stderr\<close>, and the number of clock readings taken.
\<close>

record producer =
  container :: DockerContainer
  since :: string
  reader :: stream
  logs_requests :: "(string \<times> ContainerLogsOptions) list"
  accepted :: "(LogConsumer \<times> Log) list"
  stderr :: "string list"
  ticks :: nat
  state :: status

text \<open>
  From the label \<^verbatim>\<open>BEGIN\<close> to the head of the loop. The context with its timeout
  of five seconds is handed to the engine; what it does to the stream shows in the
  events of the stream.
\<close>

definition BEGIN :: "world \<Rightarrow> producer \<Rightarrow> producer" where
  "BEGIN w p =
     (let options = \<lparr>ShowStdout = True, ShowStderr = True, Follow = True, Since = since p\<rparr>;
          p' = p\<lparr>logs_requests := logs_requests p @ [(ID (container p), options)]\<rparr>
      in case ContainerLogs w (length (logs_requests p)) (ID (container p)) options of
           Inl err \<Rightarrow> p'\<lparr>state := Panicked (PanicError err)\<rparr>
         | Inr s \<Rightarrow> p'\<lparr>reader := s\<rparr>)"

definition since_of :: "Time \<Rightarrow> string" where
  "since_of now = fmt_d (Unix now) @ ''.'' @ fmt_09d (Nanosecond now)"

text \<open>
  The \<^verbatim>\<open>default\<close> branch of the \<^verbatim>\<open>select\<close>, up to the loop over the consumers:
  the frame to deliver, if any, and the worker afterwards. \<^verbatim>\<open>continue\<close> and
  \<^verbatim>\<open>goto BEGIN\<close> both end at the head of the loop with nothing to deliver.
\<close>

definition next_frame :: "world \<Rightarrow> producer \<Rightarrow> Log option \<times> producer" where
  "next_frame w p =
    (case Read 8 (events (reader p)) of ((h, err), rest) \<Rightarrow>
      let p1 = p\<lparr>reader := (reader p)\<lparr>events := rest\<rparr>\<rparr> in
      (case err of
         Some msg \<Rightarrow>
           if Contains msg ''use of closed network connection''
           then (None, BEGIN w (p1\<lparr>since := since_of (Now w (ticks p1)),
                                     ticks := Suc (ticks p1)\<rparr>))
           else (None, p1)
       | None \<Rightarrow>
           let count = BigEndian_Uint32 (drop 4 h) in
           if count = 0 then (None, p1)
           else
             let logType = h ! 0;
                 p2 = (if logType > 2
                       then p1\<lparr>stderr := stderr p1 @
                              [''received invalid log type: '' @ decimal (unat logType)]\<rparr>
                       else p1);
                 logType = (if logType > 2 then 1 else logType);
                 logTypes = ['''', StdoutLog, StderrLog]
             in (case Read (unat count) rest of ((b, err), rest') \<Rightarrow>
                  let p3 = p2\<lparr>reader := (reader p2)\<lparr>events := rest'\<rparr>\<rparr> in
                  (case err of
                     Some msg \<Rightarrow>
                       (None, p3\<lparr>stderr := stderr p3 @
                          [''error occurred reading log with known length '' @ msg]\<rparr>)
                   | None \<Rightarrow>
                       (Some \<lparr>LogType = logTypes ! unat logType, Content = b\<rparr>, p3)))))"

text \<open>The loop \<^verbatim>\<open>for _, c := range c.consumers { c.Accept(...) }\<close>.\<close>

definition deliver :: "Log \<Rightarrow> producer \<Rightarrow> producer" where
  "deliver l p = p\<lparr>accepted := accepted p @ map (\<lambda>c. (c, l)) (consumers (container p))\<rparr>"

definition default_branch :: "world \<Rightarrow> producer \<Rightarrow> producer" where
  "default_branch w p =
     (case next_frame w p of (None, p') \<Rightarrow> p' | (Some l, p') \<Rightarrow> deliver l p')"

text \<open>The branch \<^verbatim>\<open>case <-c.stopProducer\<close>.\<close>

definition stop_branch :: "producer \<Rightarrow> producer" where
  "stop_branch p =
     (case Close_result (reader p) of
        Some err \<Rightarrow> p\<lparr>state := Panicked (PanicError err)\<rparr>
      | None \<Rightarrow> p\<lparr>state := Stopped\<rparr>)"

text \<open>
  Other goroutines may call \<^verbatim>\<open>FollowOutput\<close> while the worker runs. A schedule
  lists, for each pass through the \<^verbatim>\<open>default\<close> branch, the consumers registered
  since the pass before.
\<close>

definition follow :: "LogConsumer list \<Rightarrow> producer \<Rightarrow> producer" where
  "follow regs p = p\<lparr>container := fold FollowOutput regs (container p)\<rparr>"

fun iterate :: "world \<Rightarrow> LogConsumer list list \<Rightarrow> producer \<Rightarrow> producer" where
  "iterate w [] p = p"
| "iterate w (regs # sched) p =
     (if state p = Running then iterate w sched (default_branch w (follow regs p)) else p)"

definition spawn :: "world \<Rightarrow> DockerContainer \<Rightarrow> producer" where
  "spawn w c =
     BEGIN w \<lparr>container = c, since = '''', reader = \<lparr>events = [], Close_result = None\<rparr>,
              logs_requests = [], accepted = [], stderr = [], ticks = 0, state = Running\<rparr>"

text \<open>
  The goroutine of \<^verbatim>\<open>StartLogProducer\<close> when the stop signal is received after
  the passes of the schedule.
\<close>

definition worker :: "world \<Rightarrow> LogConsumer list list \<Rightarrow> DockerContainer \<Rightarrow> producer" where
  "worker w sched c =
     (let p = iterate w sched (spawn w c)
      in if state p = Running then stop_branch p else p)"

text \<open>
  The frames handed to the consumers during the passes of a schedule, each with the
  consumers registered at that moment.
\<close>

fun broadcasts :: "world \<Rightarrow> LogConsumer list list \<Rightarrow> producer \<Rightarrow> (Log \<times> LogConsumer list) list" where
  "broadcasts w [] p = []"
| "broadcasts w (regs # sched) p =
     (if state p = Running
      then (case next_frame w (follow regs p) of
              (None, p') \<Rightarrow> broadcasts w sched p'
            | (Some l, p') \<Rightarrow> (l, consumers (container p')) # broadcasts w sched (deliver l p'))
      else [])"

definition received :: "LogConsumer \<Rightarrow> producer \<Rightarrow> Log list" where
  "received c p = map snd (filter (\<lambda>a. fst a = c) (accepted p))"

subsection \<open>Measures used in the properties\<close>

text \<open>
  The source keeps no record of when it last read a byte. For comparison with the time
  it does send, this is the time stamp of the last chunk of a stream before its first
  failure (the second argument is the answer so far).
\<close>

fun last_read_time :: "rd_event list \<Rightarrow> Time option \<Rightarrow> Time option" where
  "last_read_time [] t = t"
| "last_read_time (Fail msg # es) t = t"
| "last_read_time (Chunk t' bs # es) t = last_read_time es (Some t')"

text \<open>The value of a string of decimal digits.\<close>

definition digit_val :: "char \<Rightarrow> nat" where
  "digit_val c = of_char c - 48"

definition decimal_val :: "string \<Rightarrow> nat" where
  "decimal_val s = foldl (\<lambda>a c. 10 * a + digit_val c) 0 s"

subsection \<open>Stopping the worker\<close>

text \<open>
  \<^verbatim>\<open>CreateContainer\<close> and \<^verbatim>\<open>ReuseOrCreateContainer\<close> set \<^verbatim>\<open>stopProducer\<close> to
  \<^verbatim>\<open>make(chan bool)\<close>, a channel without buffer: a send on it proceeds only
  together with a receive by another goroutine, and the only receive in the source is
  the \<^verbatim>\<open>select\<close> at the head of a worker's loop. For the question whether a send
  proceeds, a worker goroutine is in one of three places: busy (between two
  \<^verbatim>\<open>select\<close>s: in \<^verbatim>\<open>BEGIN\<close> or in a pass through the \<^verbatim>\<open>default\<close> branch), at
  the \<^verbatim>\<open>select\<close>, or returned after it has taken the signal. The panics of a worker
  end the whole process and are left out here.
\<close>

datatype goroutine = Busy | AtSelect | Returned

text \<open>
  \<^verbatim>\<open>StartLogProducer\<close> starts one more worker and returns. \<^verbatim>\<open>StopLogProducer\<close> is
  the send \<^verbatim>\<open>c.stopProducer <- true\<close>: it can proceed in as many ways as there are
  workers at their \<^verbatim>\<open>select\<close>, and that worker returns.
\<close>

definition StartLogProducer :: "goroutine list \<Rightarrow> goroutine list" where
  "StartLogProducer ws = ws @ [Busy]"

fun StopLogProducer :: "goroutine list \<Rightarrow> goroutine list list" where
  "StopLogProducer [] = []"
| "StopLogProducer (g # gs) =
     (if g = AtSelect then [Returned # gs] else []) @ map ((#) g) (StopLogProducer gs)"

text \<open>
  The steps that the workers take on their own. A busy worker comes to its
  \<^verbatim>\<open>select\<close>. A worker at its \<^verbatim>\<open>select\<close> takes the \<^verbatim>\<open>default\<close> branch only
  when no communication can proceed, that is when no sender is waiting.
\<close>

fun worker_steps :: "bool \<Rightarrow> goroutine list \<Rightarrow> goroutine list list" where
  "worker_steps sender [] = []"
| "worker_steps sender (g # gs) =
     (case g of
        Busy \<Rightarrow> [AtSelect # gs]
      | AtSelect \<Rightarrow> (if sender then [] else [Busy # gs])
      | Returned \<Rightarrow> []) @ map ((#) g) (worker_steps sender gs)"

text \<open>
  A goroutine that makes a sequence of these calls on one container, together with the
  workers of that container. The successors of such a state are all the states that
  one step of one goroutine can lead to; a state without successors stays as it is
  forever.
\<close>

datatype producer_call = StartLogProducer_call | StopLogProducer_call

fun successors ::
  "producer_call list \<times> goroutine list \<Rightarrow> (producer_call list \<times> goroutine list) list" where
  "successors ([], ws) = map (Pair []) (worker_steps False ws)"
| "successors (StartLogProducer_call # cs, ws) =
     (cs, StartLogProducer ws) #
     map (Pair (StartLogProducer_call # cs)) (worker_steps False ws)"
| "successors (StopLogProducer_call # cs, ws) =
     map (Pair cs) (StopLogProducer ws) @
     map (Pair (StopLogProducer_call # cs)) (worker_steps True ws)"

text \<open>
  The call at the head of the caller's sequence returns after at most \<open>n + 1\<close> steps,
  whichever goroutine takes each step.
\<close>

fun returns_within :: "nat \<Rightarrow> producer_call list \<times> goroutine list \<Rightarrow> bool" where
  "returns_within 0 c =
     (successors c \<noteq> [] \<and> (\<forall>c' \<in> set (successors c). length (fst c') < length (fst c)))"
| "returns_within (Suc n) c =
     (successors c \<noteq> [] \<and>
      (\<forall>c' \<in> set (successors c). length (fst c') < length (fst c) \<or> returns_within n c'))"

section \<open>Creating containers and networks\<close>

record DockerProvider =
  DefaultNetwork :: string
  defaultBridgeNetworkName :: string

text \<open>
  What the collaborators answer during one call of \<^verbatim>\<open>CreateContainer\<close> or
  \<^verbatim>\<open>CreateNetwork\<close>. The reaper (\<^verbatim>\<open>NewReaper\<close>, \<^verbatim>\<open>Connect\<close>, \<^verbatim>\<open>Labels\<close>) and
  \<^verbatim>\<open>Validate\<close> are declared outside the source files at hand, so their results
  are parameters: \<open>reaper_Labels\<close> is the map returned by \<^verbatim>\<open>r.Labels()\<close>, as the
  pairs that the \<^verbatim>\<open>range\<close> loop visits. \<open>image_result\<close> stands for lines 911 to 961
  (the tag, unless building, parsing the platform, inspecting or pulling fails),
  \<open>ports_result\<close> for lines 963 to 977, \<open>mounts_result\<close> for lines 991 to 994 and
  \<open>after_create_result\<close> for lines 1038 to 1074 (attaching further networks and
  copying files); none of them touches the labels.
\<close>

record create_world =
  getDefaultNetwork_result :: "error + string"
  uuid_New :: string
  NewReaper_result :: "error option"
  Connect_result :: "error option"
  reaper_Labels :: "(string \<times> string) list"
  Validate_result :: "error option"
  image_result :: "error + string"
  ShouldBuildImage :: bool
  ports_result :: "error option"
  mounts_result :: "error option"
  ContainerCreate_result :: "error + string"
  after_create_result :: "error option"
  NetworkCreate_result :: "error + string"

text \<open>
  The calls that matter for the labels, in the order made: creating and connecting the
  reaper, and the engine's create calls with the label map as it is at that moment.
\<close>

datatype ext_call =
    NewReaper_call string string
  | Connect_call
  | ContainerCreate_call labels
  | NetworkCreate_call string labels

record 'a creation =
  created :: "error + 'a"
  provider_after :: DockerProvider
  heap_after :: heap
  ext_calls :: "ext_call list"

text \<open>
  The loop
  \<^verbatim>\<open>for k, v := range r.Labels() { if _, ok := req.Labels[k]; !ok { req.Labels[k] = v } }\<close>.
\<close>

fun merge_labels :: "(string \<times> string) list \<Rightarrow> labels \<Rightarrow> labels" where
  "merge_labels [] m = m"
| "merge_labels ((k, v) # kvs) m = merge_labels kvs (if m k = None then m(k \<mapsto> v) else m)"

text \<open>
  Lines 891 to 905 and 1257 to 1271, which differ in the two messages only
  (\<open>what\<close> is empty for a container and \<^verbatim>\<open>network \<close> for a network).
\<close>

definition connect_reaper ::
  "create_world \<Rightarrow> string \<Rightarrow> string \<Rightarrow> nat \<Rightarrow> heap \<Rightarrow> string \<Rightarrow> (error + heap) \<times> ext_call list" where
  "connect_reaper w sessionID reaperImage lbls h what =
     (case NewReaper_result w of
        Some err \<Rightarrow>
          (Inl (err @ '': creating '' @ what @ ''reaper failed''),
           [NewReaper_call sessionID reaperImage])
      | None \<Rightarrow>
          (case Connect_result w of
             Some err \<Rightarrow>
               (Inl (err @ '': connecting to '' @ what @ ''reaper failed''),
                [NewReaper_call sessionID reaperImage, Connect_call])
           | None \<Rightarrow>
               (Inr (h\<lparr>cells := (cells h)(lbls := merge_labels (reaper_Labels w) (cells h lbls))\<rparr>),
                [NewReaper_call sessionID reaperImage, Connect_call])))"

text \<open>Lines 907 to 994: everything between the reaper and the create call.\<close>

definition prepare :: "create_world \<Rightarrow> error + string" where
  "prepare w =
     (case Validate_result w of
        Some err \<Rightarrow> Inl err
      | None \<Rightarrow>
          (case image_result w of
             Inl err \<Rightarrow> Inl err
           | Inr tag \<Rightarrow>
               (case ports_result w of
                  Some err \<Rightarrow> Inl err
                | None \<Rightarrow>
                    (case mounts_result w of
                       Some err \<Rightarrow> Inl err
                     | None \<Rightarrow> Inr tag))))"

definition ensure_default_network :: "create_world \<Rightarrow> DockerProvider \<Rightarrow> error + DockerProvider" where
  "ensure_default_network w p =
     (if DefaultNetwork p = ''''
      then (case getDefaultNetwork_result w of
              Inl err \<Rightarrow> Inl err
            | Inr n \<Rightarrow> Inr (p\<lparr>DefaultNetwork := n\<rparr>))
      else Inr p)"

text \<open>
  \<^verbatim>\<open>CreateContainer\<close>. The list \<open>networks\<close> is what lines 865 to 877 leave in
  \<^verbatim>\<open>req.Networks\<close>; it is read by the network calls around the create call, whose
  errors are either dropped by the source or part of \<open>after_create_result\<close>. The
  request is a copy, but its label map is the caller's: the writes to it stay in the
  heap.
\<close>

definition CreateContainer ::
  "create_world \<Rightarrow> DockerProvider \<Rightarrow> heap \<Rightarrow> ContainerRequest \<Rightarrow> DockerContainer creation" where
  "CreateContainer w p h req =
    (case ensure_default_network w p of
       Inl err \<Rightarrow> \<lparr>created = Inl err, provider_after = p, heap_after = h, ext_calls = []\<rparr>
     | Inr p \<Rightarrow>
        let networks =
              (if DefaultNetwork p \<noteq> defaultBridgeNetworkName p \<and>
                  DefaultNetwork p \<notin> set (ContainerRequest.Networks req)
               then ContainerRequest.Networks req @ [DefaultNetwork p]
               else ContainerRequest.Networks req);
            (lbls, h) = (case ContainerRequest.Labels req of
                           None \<Rightarrow> make_map h
                         | Some a \<Rightarrow> (a, h));
            sessionID = uuid_New w;
            (r, cs) = (if \<not> ContainerRequest.SkipReaper req
                       then connect_reaper w sessionID (ContainerRequest.ReaperImage req) lbls h ''''
                       else (Inr h, []))
        in (case r of
              Inl err \<Rightarrow>
                \<lparr>created = Inl err, provider_after = p, heap_after = h, ext_calls = cs\<rparr>
            | Inr h \<Rightarrow>
               (case prepare w of
                  Inl err \<Rightarrow>
                    \<lparr>created = Inl err, provider_after = p, heap_after = h, ext_calls = cs\<rparr>
                | Inr tag \<Rightarrow>
                    let cs = cs @ [ContainerCreate_call (cells h lbls)]
                    in (case ContainerCreate_result w of
                          Inl err \<Rightarrow>
                            \<lparr>created = Inl err, provider_after = p, heap_after = h,
                             ext_calls = cs\<rparr>
                        | Inr resp_ID \<Rightarrow>
                            (case after_create_result w of
                               Some err \<Rightarrow>
                                 \<lparr>created = Inl err, provider_after = p, heap_after = h,
                                  ext_calls = cs\<rparr>
                             | None \<Rightarrow>
                                 \<lparr>created = Inr \<lparr>ID = resp_ID,
                                      WaitingFor = ContainerRequest.WaitingFor req,
                                      Image = tag, isRunning = False,
                                      imageWasBuilt = ShouldBuildImage w,
                                      skipReaper = ContainerRequest.SkipReaper req,
                                      consumers = []\<rparr>,
                                  provider_after = p, heap_after = h, ext_calls = cs\<rparr>)))))"

text \<open>
  In \<^verbatim>\<open>CreateNetwork\<close> the engine's request \<^verbatim>\<open>nc\<close> is filled in before the
  reaper's labels are merged; \<^verbatim>\<open>nc.Labels\<close> is the same map as \<^verbatim>\<open>req.Labels\<close>,
  so the engine sees the map as it is when \<^verbatim>\<open>NetworkCreate\<close> is called. When that
  call fails the source returns an empty \<^verbatim>\<open>DockerNetwork\<close> beside the error; the
  model keeps the error.
\<close>

definition CreateNetwork ::
  "create_world \<Rightarrow> DockerProvider \<Rightarrow> heap \<Rightarrow> NetworkRequest \<Rightarrow> DockerNetwork creation" where
  "CreateNetwork w p h req =
    (case ensure_default_network w p of
       Inl err \<Rightarrow> \<lparr>created = Inl err, provider_after = p, heap_after = h, ext_calls = []\<rparr>
     | Inr p \<Rightarrow>
        let (lbls, h) = (case NetworkRequest.Labels req of
                           None \<Rightarrow> make_map h
                         | Some a \<Rightarrow> (a, h));
            nc_Labels = lbls;
            sessionID = uuid_New w;
            (r, cs) = (if \<not> NetworkRequest.SkipReaper req
                       then connect_reaper w sessionID (NetworkRequest.ReaperImage req) lbls h
                              ''network ''
                       else (Inr h, []))
        in (case r of
              Inl err \<Rightarrow>
                \<lparr>created = Inl err, provider_after = p, heap_after = h, ext_calls = cs\<rparr>
            | Inr h \<Rightarrow>
                let cs = cs @ [NetworkCreate_call (NetworkRequest.Name req) (cells h nc_Labels)]
                in (case NetworkCreate_result w of
                      Inl err \<Rightarrow>
                        \<lparr>created = Inl err, provider_after = p, heap_after = h, ext_calls = cs\<rparr>
                    | Inr response_ID \<Rightarrow>
                        \<lparr>created = Inr \<lparr>DockerNetwork.ID = response_ID,
                             Driver = NetworkRequest.Driver req,
                             Name = NetworkRequest.Name req\<rparr>,
                         provider_after = p, heap_after = h, ext_calls = cs\<rparr>)))"

text \<open>The labels a request asks for: those of its map, none for \<^verbatim>\<open>nil\<close>.\<close>

definition requested :: "heap \<Rightarrow> nat option \<Rightarrow> labels" where
  "requested h l = (case l of None \<Rightarrow> Map.empty | Some a \<Rightarrow> cells h a)"

section \<open>Concrete inputs for the examples\<close>

text \<open>
  A container with two registered consumers, and a world in which every
  \<^verbatim>\<open>ContainerLogs\<close> request is answered with a stream of the given events that
  closes without error and every reading of the clock gives the same time.
\<close>

definition a_container :: DockerContainer where
  "a_container =
     \<lparr>ID = ''0123456789abcdef'', WaitingFor = None, Image = ''alpine'', isRunning = False,
      imageWasBuilt = False, skipReaper = False, consumers = [0, 1]\<rparr>"

definition world_of :: "rd_event list \<Rightarrow> Time \<Rightarrow> world" where
  "world_of es now =
     \<lparr>ContainerLogs = (\<lambda>k i options. Inr \<lparr>events = es, Close_result = None\<rparr>),
      Now = (\<lambda>k. now)\<rparr>"

definition a_client :: client where
  "a_client = \<lparr>ContainerStart_result = (\<lambda>i. None), ContainerStop_result = (\<lambda>i t. None)\<rparr>"

text \<open>
  A provider whose default network is known, an empty heap with one label map in cell 0
  that already has the key \<open>session\<close>, and a world in which every collaborator
  succeeds and the reaper's labels are a marker and the session identifier.
\<close>

definition a_provider :: DockerProvider where
  "a_provider = \<lparr>DefaultNetwork = ''bridge'', defaultBridgeNetworkName = ''bridge''\<rparr>"

definition a_heap :: heap where
  "a_heap = \<lparr>cells = (\<lambda>a. Map.empty)(0 := [''session'' \<mapsto> ''mine'']), fresh = 1\<rparr>"

definition a_create_world :: create_world where
  "a_create_world =
     \<lparr>getDefaultNetwork_result = Inr ''bridge'', uuid_New = ''S1'',
      NewReaper_result = None, Connect_result = None,
      reaper_Labels = [(''managed'', ''true''), (''session'', ''S1'')],
      Validate_result = None, image_result = Inr ''alpine'', ShouldBuildImage = False,
      ports_result = None, mounts_result = None, ContainerCreate_result = Inr ''0123456789abcdef'',
      after_create_result = None, NetworkCreate_result = Inr ''fedcba9876543210''\<rparr>"

definition a_container_request :: "nat option \<Rightarrow> ContainerRequest" where
  "a_container_request l =
     \<lparr>ContainerRequest.Name = ''c'', Labels = l, Networks = [], SkipReaper = False,
      ReaperImage = '''', WaitingFor = None\<rparr>"

definition a_network_request :: "nat option \<Rightarrow> NetworkRequest" where
  "a_network_request l =
     \<lparr>NetworkRequest.Driver = ''bridge'', Name = ''n'', Labels = l, SkipReaper = False,
      ReaperImage = ''''\<rparr>"

text \<open>
  The worker of \<open>a_container\<close> at the head of its loop, on a stream with the given
  events, in the world that hands out this stream.
\<close>

definition epoch :: Time where
  "epoch = \<lparr>Unix = 0, Nanosecond = 0\<rparr>"

definition a_world :: "rd_event list \<Rightarrow> world" where
  "a_world es = world_of es epoch"

definition a_producer :: "rd_event list \<Rightarrow> producer" where
  "a_producer es = spawn (a_world es) a_container"

section \<open>Properties of the model\<close>

subsection \<open>Reading and delivering\<close>

lemma Read_length: "length (fst (fst (Read n es))) = n"
  by (induction n es rule: Read.induct) auto

lemma BEGIN_keeps:
  "container (BEGIN w p) = container p" "accepted (BEGIN w p) = accepted p"
  by (auto simp: BEGIN_def Let_def split: sum.splits)

lemma next_frame_keeps:
  assumes "next_frame w p = (lo, p')"
  shows "container p' = container p" and "accepted p' = accepted p"
  using assms
  by (auto simp: next_frame_def Let_def BEGIN_keeps split: prod.splits option.splits if_splits)

lemma consumers_FollowOutput: "consumers (FollowOutput x c) = consumers c @ [x]"
  by (simp add: FollowOutput_def)

lemma consumers_fold_FollowOutput: "consumers (fold FollowOutput regs c) = consumers c @ regs"
  by (induction regs arbitrary: c) (simp_all add: consumers_FollowOutput)

lemma follow_keeps:
  "accepted (follow regs p) = accepted p" "state (follow regs p) = state p"
  "consumers (container (follow regs p)) = consumers (container p) @ regs"
  by (simp_all add: follow_def consumers_fold_FollowOutput)

lemma accepted_iterate:
  "accepted (iterate w sched p) =
     accepted p @ concat (map (\<lambda>(l, cs). map (\<lambda>c. (c, l)) cs) (broadcasts w sched p))"
proof (induction sched arbitrary: p)
  case Nil
  show ?case by simp
next
  case (Cons regs sched)
  show ?case
  proof (cases "state p = Running")
    case False
    then show ?thesis by simp
  next
    case True
    obtain lo p' where nf: "next_frame w (follow regs p) = (lo, p')"
      by (cases "next_frame w (follow regs p)")
    have acc: "accepted p' = accepted p"
      using next_frame_keeps(2)[OF nf] by (simp add: follow_keeps)
    show ?thesis
    proof (cases lo)
      case None
      with True nf acc Cons.IH[of p'] show ?thesis
        by (simp add: default_branch_def)
    next
      case (Some l)
      with True nf acc Cons.IH[of "deliver l p'"] show ?thesis
        by (simp add: default_branch_def deliver_def)
    qed
  qed
qed



lemma BEGIN_state:
  "\<forall>k i options. \<exists>s. ContainerLogs w k i options = Inr s \<Longrightarrow> state (BEGIN w p) = state p"
proof -
  assume a: "\<forall>k i options. \<exists>s. ContainerLogs w k i options = Inr s"
  let ?options = "\<lparr>ShowStdout = True, ShowStderr = True, Follow = True, Since = since p\<rparr>"
  from a obtain s where "ContainerLogs w (length (logs_requests p)) (ID (container p)) ?options = Inr s"
    by blast
  then show ?thesis by (simp add: BEGIN_def Let_def)
qed

lemma next_frame_state:
  assumes "\<forall>k i options. \<exists>s. ContainerLogs w k i options = Inr s"
    and "next_frame w p = (lo, p')"
  shows "state p' = state p"
  using assms(2) BEGIN_state[OF assms(1)]
  by (auto simp: next_frame_def Let_def split: prod.splits option.splits if_splits)

lemma default_branch_state:
  assumes "\<forall>k i options. \<exists>s. ContainerLogs w k i options = Inr s"
  shows "state (default_branch w p) = state p"
proof -
  obtain lo p' where nf: "next_frame w p = (lo, p')"
    by (cases "next_frame w p")
  from next_frame_state[OF assms nf] nf show ?thesis
    by (cases lo) (simp_all add: default_branch_def deliver_def)
qed

lemma iterate_state:
  assumes "\<forall>k i options. \<exists>s. ContainerLogs w k i options = Inr s"
  shows "state (iterate w sched p) = state p"
proof (induction sched arbitrary: p)
  case Nil
  show ?case by simp
next
  case (Cons regs sched)
  show ?case
    by (simp add: Cons.IH default_branch_state[OF assms] follow_keeps)
qed

subsection \<open>Decimal formatting\<close>

lemma digit_val_digit_char: "d < 10 \<Longrightarrow> digit_val (digit_char d) = d"
  by (simp add: digit_val_def digit_char_def)

lemma decimal_val_append: "decimal_val (s @ [c]) = 10 * decimal_val s + digit_val c"
  by (simp add: decimal_val_def)

lemma decimal_val_decimal: "decimal_val (decimal n) = n"
proof (induction n rule: decimal.induct)
  case (1 n)
  show ?case
  proof (cases "n < 10")
    case True
    then show ?thesis
      by (subst decimal.simps) (simp add: decimal_val_def digit_val_digit_char)
  next
    case False
    with 1 have "decimal_val (decimal (n div 10)) = n div 10" by simp
    with False show ?thesis
      by (subst decimal.simps) (simp add: decimal_val_append digit_val_digit_char)
  qed
qed

lemma decimal_inj: "decimal m = decimal n \<Longrightarrow> m = n"
  by (metis decimal_val_decimal)

lemma length_decimal_le: "n < 10 ^ k \<Longrightarrow> 0 < k \<Longrightarrow> length (decimal n) \<le> k"
proof (induction n arbitrary: k rule: decimal.induct)
  case (1 n)
  show ?case
  proof (cases "n < 10")
    case True
    with 1(3) show ?thesis by (subst decimal.simps) simp
  next
    case False
    then obtain j where k: "k = Suc j" using 1(3) by (cases k) auto
    from False 1(2) have "0 < j" by (cases j) (auto simp: k)
    moreover from 1(2) have "n div 10 < 10 ^ j" by (simp add: k less_mult_imp_div_less mult.commute)
    ultimately have "length (decimal (n div 10)) \<le> j" using 1(1) False by simp
    with False show ?thesis by (subst decimal.simps) (simp add: k)
  qed
qed

lemma decimal_not_Nil: "decimal n \<noteq> []"
  by (subst decimal.simps) simp

lemma digit_char_not_minus: "d < 10 \<Longrightarrow> digit_char d \<noteq> CHR ''-''"
proof
  assume "d < 10" and "digit_char d = CHR ''-''"
  then have "(of_char (digit_char d) :: nat) = of_char CHR ''-''" by simp
  with \<open>d < 10\<close> show False by (simp add: digit_char_def)
qed

lemma hd_decimal_not_minus: "hd (decimal n) \<noteq> CHR ''-''"
proof (induction n rule: decimal.induct)
  case (1 n)
  show ?case
  proof (cases "n < 10")
    case True
    then show ?thesis by (subst decimal.simps) (simp add: digit_char_not_minus)
  next
    case False
    with 1 decimal_not_Nil[of "n div 10"] show ?thesis
      by (subst decimal.simps) simp
  qed
qed

lemma fmt_d_inj: "fmt_d a = fmt_d b \<Longrightarrow> a = b"
proof -
  assume eq: "fmt_d a = fmt_d b"
  have neg: "decimal m \<noteq> CHR ''-'' # s" for m s
    using hd_decimal_not_minus[of m] by (cases "decimal m") auto
  show ?thesis
  proof (cases "a < 0"; cases "b < 0")
    assume "a < 0" "b < 0"
    with eq have "nat (- a) = nat (- b)" by (auto simp: fmt_d_def dest: decimal_inj)
    with \<open>a < 0\<close> \<open>b < 0\<close> show ?thesis by simp
  next
    assume "a < 0" "\<not> b < 0"
    with eq have "decimal (nat b) = CHR ''-'' # decimal (nat (- a))" by (simp add: fmt_d_def)
    with neg show ?thesis by blast
  next
    assume "\<not> a < 0" "b < 0"
    with eq have "decimal (nat a) = CHR ''-'' # decimal (nat (- b))" by (simp add: fmt_d_def)
    with neg show ?thesis by blast
  next
    assume "\<not> a < 0" "\<not> b < 0"
    with eq have "nat a = nat b" by (auto simp: fmt_d_def dest: decimal_inj)
    with \<open>\<not> a < 0\<close> \<open>\<not> b < 0\<close> show ?thesis by simp
  qed
qed

lemma decimal_val_zeros: "decimal_val (replicate k CHR ''0'' @ s) = decimal_val s"
proof -
  have "foldl (\<lambda>a c. 10 * a + digit_val c) 0 (replicate k CHR ''0'') = 0"
    by (induction k) (simp_all add: digit_val_def)
  then show ?thesis by (simp add: decimal_val_def)
qed

lemma fmt_09d_inj: "fmt_09d m = fmt_09d n \<Longrightarrow> m = n"
  by (metis fmt_09d_def decimal_val_zeros decimal_val_decimal)

lemma length_fmt_09d: "n < 10 ^ 9 \<Longrightarrow> length (fmt_09d n) = 9"
  using length_decimal_le[of n 9] by (simp add: fmt_09d_def)

lemma since_of_inj:
  assumes "Nanosecond s < 10 ^ 9" "Nanosecond t < 10 ^ 9" "since_of s = since_of t"
  shows "s = t"
proof -
  have len: "length (''.'' @ fmt_09d (Nanosecond s)) = length (''.'' @ fmt_09d (Nanosecond t))"
    using assms(1,2) by (simp add: length_fmt_09d)
  from assms(3) have "fmt_d (Unix s) @ (''.'' @ fmt_09d (Nanosecond s)) =
      fmt_d (Unix t) @ (''.'' @ fmt_09d (Nanosecond t))"
    by (simp add: since_of_def)
  with len have "fmt_d (Unix s) = fmt_d (Unix t)" "fmt_09d (Nanosecond s) = fmt_09d (Nanosecond t)"
    using append_eq_append_conv[of "fmt_d (Unix s)" "fmt_d (Unix t)"
        "''.'' @ fmt_09d (Nanosecond s)" "''.'' @ fmt_09d (Nanosecond t)"]
    by simp_all
  then have "Unix s = Unix t" "Nanosecond s = Nanosecond t"
    by (auto dest: fmt_d_inj fmt_09d_inj)
  then show ?thesis by simp
qed

lemma decimal_3: "decimal 3 = ''3''"
  by code_simp

lemma since_of_5_7: "since_of \<lparr>Unix = 5, Nanosecond = 7\<rparr> = ''5.000000007''"
  by code_simp

lemma since_of_1_0: "since_of \<lparr>Unix = 1, Nanosecond = 0\<rparr> = ''1.000000000''"
  by code_simp

subsection \<open>Kinds and lengths of delivered logs\<close>

lemma follow_reader: "reader (follow regs p) = reader p"
  by (simp add: follow_def)

lemma tag_cases: "\<not> (2::8 word) < x \<Longrightarrow> x = 0 \<or> x = 1 \<or> x = 2"
  by unat_arith

lemma next_frame_kind:
  assumes "next_frame w p = (Some l, p')"
  shows "LogType l =
     (let tag = fst (fst (Read 8 (events (reader p)))) ! 0
      in if tag = 0 then '''' else if tag = 2 then StderrLog else StdoutLog)"
proof -
  obtain h err rest where rd: "Read 8 (events (reader p)) = ((h, err), rest)"
    by (metis prod.collapse)
  show ?thesis
  proof (cases "2 < h ! 0")
    case True
    then have "h ! 0 \<noteq> 0" "h ! 0 \<noteq> 2" by auto
    with assms rd True show ?thesis
      by (auto simp: next_frame_def Let_def split: option.splits if_splits prod.splits)
  next
    case False
    from tag_cases[OF this] assms rd False show ?thesis
      by (auto simp: next_frame_def Let_def split: option.splits if_splits prod.splits)
  qed
qed

lemma next_frame_length:
  assumes "next_frame w p = (Some l, p')"
  shows "length (Content l) =
     unat (BigEndian_Uint32 (drop 4 (fst (fst (Read 8 (events (reader p)))))))"
  using assms
    Read_length[of "unat (BigEndian_Uint32 (drop 4 (fst (fst (Read 8 (events (reader p)))))))"
       "snd (Read 8 (events (reader p)))"]
  by (auto simp: next_frame_def Let_def split: option.splits if_splits prod.splits)

subsection \<open>Labels at creation\<close>

lemma merge_labels_eq: "merge_labels kvs m = map_of kvs ++ m"
proof (induction kvs arbitrary: m)
  case Nil
  show ?case by simp
next
  case (Cons kv kvs)
  obtain k v where kv: "kv = (k, v)" by (cases kv)
  show ?case
  proof (rule ext)
    fix x
    show "merge_labels (kv # kvs) m x = (map_of (kv # kvs) ++ m) x"
      by (cases "m k"; cases "m x") (auto simp: kv Cons.IH map_add_def split: option.splits)
  qed
qed

lemma connect_reaper_Inr:
  assumes "connect_reaper w sid img l h what = (Inr h', cs)"
  shows "cells h' l = map_of (reaper_Labels w) ++ cells h l"
    and "cs = [NewReaper_call sid img, Connect_call]"
    and "NewReaper_result w = None" and "Connect_result w = None"
  using assms by (auto simp: connect_reaper_def merge_labels_eq split: option.splits)

lemma connect_reaper_Inl:
  assumes "connect_reaper w sid img l h what = (Inl e, cs)"
  shows "\<forall>c\<in>set cs. c = NewReaper_call sid img \<or> c = Connect_call"
  using assms by (auto simp: connect_reaper_def split: option.splits)

lemma labels_requested:
  "(case l of None \<Rightarrow> make_map h | Some a \<Rightarrow> (a, h)) = (a', h') \<Longrightarrow> cells h' a' = requested h l"
  by (auto simp: make_map_def requested_def split: option.splits)

lemma CreateContainer_labels:
  assumes "\<not> ContainerRequest.SkipReaper req"
    and "ContainerCreate_call m \<in> set (ext_calls (CreateContainer w p h req))"
  shows "m = map_of (reaper_Labels w) ++ requested h (ContainerRequest.Labels req)"
    and "ext_calls (CreateContainer w p h req) =
           [NewReaper_call (uuid_New w) (ContainerRequest.ReaperImage req), Connect_call,
            ContainerCreate_call m]"
proof -
  obtain p' where p': "ensure_default_network w p = Inr p'"
    using assms(2) by (cases "ensure_default_network w p") (auto simp: CreateContainer_def)
  obtain l h1 where lh: "(case ContainerRequest.Labels req of None \<Rightarrow> make_map h | Some a \<Rightarrow> (a, h)) = (l, h1)"
    by (metis prod.collapse)
  obtain r cs where cr: "connect_reaper w (uuid_New w) (ContainerRequest.ReaperImage req) l h1 '''' = (r, cs)"
    by (metis prod.collapse)
  have both: "m = map_of (reaper_Labels w) ++ requested h (ContainerRequest.Labels req) \<and>
      ext_calls (CreateContainer w p h req) =
           [NewReaper_call (uuid_New w) (ContainerRequest.ReaperImage req), Connect_call,
            ContainerCreate_call m]"
  proof (cases r)
    case (Inl e)
    with assms p' lh cr connect_reaper_Inl[of w _ _ l h1 "''''" e cs]
    show ?thesis
      by (auto simp: CreateContainer_def Let_def)
  next
    case (Inr h2)
    note c = connect_reaper_Inr[OF cr[unfolded Inr]]
    from assms p' lh cr Inr c labels_requested[OF lh]
    show ?thesis
      by (auto simp: CreateContainer_def Let_def split: sum.splits option.splits)
  qed
  from both show "m = map_of (reaper_Labels w) ++ requested h (ContainerRequest.Labels req)"
    and "ext_calls (CreateContainer w p h req) =
           [NewReaper_call (uuid_New w) (ContainerRequest.ReaperImage req), Connect_call,
            ContainerCreate_call m]" by simp_all
qed

lemma CreateNetwork_labels:
  assumes "\<not> NetworkRequest.SkipReaper req"
    and "NetworkCreate_call n m \<in> set (ext_calls (CreateNetwork w p h req))"
  shows "m = map_of (reaper_Labels w) ++ requested h (NetworkRequest.Labels req)"
    and "ext_calls (CreateNetwork w p h req) =
           [NewReaper_call (uuid_New w) (NetworkRequest.ReaperImage req), Connect_call,
            NetworkCreate_call n m]"
proof -
  obtain p' where p': "ensure_default_network w p = Inr p'"
    using assms(2) by (cases "ensure_default_network w p") (auto simp: CreateNetwork_def)
  obtain l h1 where lh: "(case NetworkRequest.Labels req of None \<Rightarrow> make_map h | Some a \<Rightarrow> (a, h)) = (l, h1)"
    by (metis prod.collapse)
  obtain r cs where cr: "connect_reaper w (uuid_New w) (NetworkRequest.ReaperImage req) l h1 ''network '' = (r, cs)"
    by (metis prod.collapse)
  have both: "m = map_of (reaper_Labels w) ++ requested h (NetworkRequest.Labels req) \<and>
      ext_calls (CreateNetwork w p h req) =
           [NewReaper_call (uuid_New w) (NetworkRequest.ReaperImage req), Connect_call,
            NetworkCreate_call n m]"
  proof (cases r)
    case (Inl e)
    with assms p' lh cr connect_reaper_Inl[of w _ _ l h1 "''network ''" e cs]
    show ?thesis
      by (auto simp: CreateNetwork_def Let_def)
  next
    case (Inr h2)
    note c = connect_reaper_Inr[OF cr[unfolded Inr]]
    from assms p' lh cr Inr c labels_requested[OF lh]
    show ?thesis
      by (auto simp: CreateNetwork_def Let_def split: sum.splits option.splits)
  qed
  from both show "m = map_of (reaper_Labels w) ++ requested h (NetworkRequest.Labels req)"
    and "ext_calls (CreateNetwork w p h req) =
           [NewReaper_call (uuid_New w) (NetworkRequest.ReaperImage req), Connect_call,
            NetworkCreate_call n m]" by simp_all
qed

subsection \<open>Steps of the caller and the workers\<close>

lemma StopLogProducer_Nil: "(StopLogProducer ws = []) = (AtSelect \<notin> set ws)"
  by (induction ws) auto

lemma worker_steps_True_Nil: "(worker_steps True ws = []) = (Busy \<notin> set ws)"
  by (induction ws) (auto split: goroutine.splits)

lemma worker_steps_True_step:
  "ws' \<in> set (worker_steps True ws) \<Longrightarrow>
     Suc (count_list ws' Busy) = count_list ws Busy \<and> AtSelect \<in> set ws'"
proof (induction ws arbitrary: ws')
  case Nil
  then show ?case by simp
next
  case (Cons g gs)
  show ?case
  proof (cases g)
    case Busy
    with Cons.prems consider "ws' = AtSelect # gs"
      | ws'' where "ws' = Busy # ws''" "ws'' \<in> set (worker_steps True gs)" by auto
    then show ?thesis
    proof cases
      case 1
      with Busy show ?thesis by simp
    next
      case 2
      with Cons.IH[of ws''] Busy show ?thesis by simp
    qed
  next
    case AtSelect
    with Cons.prems obtain ws'' where "ws' = AtSelect # ws''" "ws'' \<in> set (worker_steps True gs)"
      by auto
    with Cons.IH[of ws''] AtSelect show ?thesis by simp
  next
    case Returned
    with Cons.prems obtain ws'' where "ws' = Returned # ws''" "ws'' \<in> set (worker_steps True gs)"
      by auto
    with Cons.IH[of ws''] Returned show ?thesis by simp
  qed
qed

lemma StopLogProducer_step:
  "ws' \<in> set (StopLogProducer ws) \<Longrightarrow>
     count_list ws' Returned = Suc (count_list ws Returned) \<and> length ws' = length ws"
proof (induction ws arbitrary: ws')
  case Nil
  then show ?case by simp
next
  case (Cons g gs)
  from Cons.prems consider "g = AtSelect" "ws' = Returned # gs"
    | ws'' where "ws' = g # ws''" "ws'' \<in> set (StopLogProducer gs)"
    by (auto split: if_splits)
  then show ?case
  proof cases
    case 1
    then show ?thesis by simp
  next
    case 2
    with Cons.IH[of ws''] show ?thesis by auto
  qed
qed

lemma stop_returns:
  "count_list ws Busy = n \<Longrightarrow> Busy \<in> set ws \<or> AtSelect \<in> set ws \<Longrightarrow>
     returns_within n (StopLogProducer_call # cs, ws)"
proof (induction n arbitrary: ws)
  case 0
  then have nb: "Busy \<notin> set ws" by (simp add: count_list_0_iff)
  with 0 have "AtSelect \<in> set ws" by simp
  with nb show ?case
    by (auto simp: StopLogProducer_Nil worker_steps_True_Nil[THEN iffD2])
next
  case (Suc n)
  then have b: "Busy \<in> set ws" by (metis count_list_0_iff nat.distinct(1))
  have "returns_within n (StopLogProducer_call # cs, ws')"
    if "ws' \<in> set (worker_steps True ws)" for ws'
    using worker_steps_True_step[OF that] Suc.prems(1) by (intro Suc.IH) auto
  with b show ?case
    by (auto simp: worker_steps_True_Nil)
qed

lemma all_Returned: "(\<forall>g \<in> set ws. g = Returned) = (Busy \<notin> set ws \<and> AtSelect \<notin> set ws)"
  by (metis goroutine.exhaust goroutine.distinct(3,5))

lemma stop_blocked:
  "(successors (StopLogProducer_call # cs, ws) = []) = (\<forall>g \<in> set ws. g = Returned)"
  by (auto simp: all_Returned StopLogProducer_Nil worker_steps_True_Nil)

section \<open>The claims\<close>

subsection \<open>Start and Stop\<close>

text \<open>
  Claim C4. \<^verbatim>\<open>Start\<close> calls \<^verbatim>\<open>WaitUntilReady\<close> exactly when the ID has at least 12
  bytes, the engine accepted the start request and a strategy is attached. If that
  call returns an error, \<^verbatim>\<open>Start\<close> returns the same error, the only request it has
  sent to the engine is the start request (nothing is stopped or removed), and the
  container is as before: in particular \<^verbatim>\<open>isRunning\<close> is not set.
\<close>

theorem Start_wait_error:
  assumes "12 \<le> length (ID c)"
    and "ContainerStart_result cl (ID c) = None"
    and "WaitingFor c = Some s"
    and "WaitUntilReady s (ID c) = Some err"
  shows "returned (Start cl c) = Returns (Some err) \<and>
         requests (Start cl c) = [ContainerStart (ID c)] \<and>
         (\<forall>r \<in> set (requests (Start cl c)). \<not> is_stop_or_remove r) \<and>
         after (Start cl c) = c \<and>
         isRunning (after (Start cl c)) = isRunning c"
  using assms by (simp add: Start_def Let_def is_stop_or_remove_def)

theorem Start_wait_error_witness:
  "returned (Start a_client
      (a_container\<lparr>WaitingFor := Some (Strategy (\<lambda>i. Some ''context deadline exceeded''))\<rparr>))
     = Returns (Some ''context deadline exceeded'') \<and>
   requests (Start a_client
      (a_container\<lparr>WaitingFor := Some (Strategy (\<lambda>i. Some ''context deadline exceeded''))\<rparr>))
     = [ContainerStart ''0123456789abcdef''] \<and>
   \<not> isRunning (after (Start a_client
      (a_container\<lparr>WaitingFor := Some (Strategy (\<lambda>i. Some ''context deadline exceeded''))\<rparr>)))"
  using Start_wait_error [of
      "a_container\<lparr>WaitingFor := Some (Strategy (\<lambda>i. Some ''context deadline exceeded''))\<rparr>"
      a_client "Strategy (\<lambda>i. Some ''context deadline exceeded'')"
      "''context deadline exceeded''"]
  by (simp add: a_container_def a_client_def)

text \<open>
  Claim C10. \<^verbatim>\<open>Start\<close> and \<^verbatim>\<open>Stop\<close> slice \<^verbatim>\<open>c.ID[:12]\<close> before anything else.
  With an ID of fewer than 12 bytes both panic on the slice: nothing is returned, no
  request reaches the engine, nothing is logged and the container is unchanged. With
  an ID of at least 12 bytes both return (an error or \<^verbatim>\<open>nil\<close>), after sending their
  request with the full ID to the engine and logging the first 12 bytes.
\<close>

theorem Start_Stop_short_ID:
  "(length (ID c) < 12 \<longrightarrow>
      Start cl c = \<lparr>returned = Panics (SliceBoundsOutOfRange 12 (length (ID c))),
                    after = c, requests = [], logged = []\<rparr> \<and>
      Stop cl c t = \<lparr>returned = Panics (SliceBoundsOutOfRange 12 (length (ID c))),
                     after = c, requests = [], logged = []\<rparr>) \<and>
   (12 \<le> length (ID c) \<longrightarrow>
      (\<exists>e. returned (Start cl c) = Returns e) \<and>
      requests (Start cl c) = [ContainerStart (ID c)] \<and>
      hd (logged (Start cl c)) =
        ''Starting container id: '' @ take 12 (ID c) @ '' image: '' @ Image c \<and>
      (\<exists>e. returned (Stop cl c t) = Returns e) \<and>
      requests (Stop cl c t) = [ContainerStop (ID c) t] \<and>
      hd (logged (Stop cl c t)) =
        ''Stopping container id: '' @ take 12 (ID c) @ '' image: '' @ Image c)"
  by (auto simp add: Start_def Stop_def Let_def split: option.splits)

theorem Start_Stop_short_ID_witness:
  "returned (Start a_client (a_container\<lparr>ID := ''abc''\<rparr>)) =
     Panics (SliceBoundsOutOfRange 12 3) \<and>
   returned (Stop a_client (a_container\<lparr>ID := ''abc''\<rparr>) None) =
     Panics (SliceBoundsOutOfRange 12 3) \<and>
   requests (Start a_client (a_container\<lparr>ID := ''abc''\<rparr>)) = [] \<and>
   requests (Stop a_client (a_container\<lparr>ID := ''abc''\<rparr>) None) = [] \<and>
   requests (Start a_client a_container) = [ContainerStart ''0123456789abcdef''] \<and>
   requests (Stop a_client a_container None) = [ContainerStop ''0123456789abcdef'' None] \<and>
   hd (logged (Start a_client a_container)) =
     ''Starting container id: 0123456789ab image: alpine''"
  using Start_Stop_short_ID [of "a_container\<lparr>ID := ''abc''\<rparr>" a_client None]
    Start_Stop_short_ID [of a_container a_client None]
  by (simp add: a_container_def)

subsection \<open>Frames\<close>

lemmas run_worker =
  worker_def spawn_def BEGIN_def default_branch_def next_frame_def follow_def deliver_def
  received_def BigEndian_Uint32_def stop_branch_def world_of_def a_container_def Let_def
  a_producer_def a_world_def

text \<open>
  Claim C9. When the header has been read without error and its length field is zero,
  the pass ends there: no \<^verbatim>\<open>Accept\<close> call is made, nothing is written to
  \<^verbatim>\<open>os.Stderr\<close>, the worker keeps running, and the only change is that the stream
  has moved past the bytes of the header; the next pass reads the next header from
  there.
\<close>

theorem zero_length_frame_skipped:
  assumes "Read 8 (events (reader p)) = ((h, None), rest)"
    and "BigEndian_Uint32 (drop 4 h) = 0"
  shows "next_frame w p = (None, p\<lparr>reader := (reader p)\<lparr>events := rest\<rparr>\<rparr>) \<and>
         default_branch w p = p\<lparr>reader := (reader p)\<lparr>events := rest\<rparr>\<rparr> \<and>
         accepted (default_branch w p) = accepted p \<and>
         stderr (default_branch w p) = stderr p \<and>
         state (default_branch w p) = state p \<and>
         (state p = Running \<longrightarrow>
            iterate w (regs # sched) p =
              iterate w sched ((follow regs p)\<lparr>reader := (reader p)\<lparr>events := rest\<rparr>\<rparr>))"
  using assms by (simp add: next_frame_def default_branch_def follow_def)

theorem zero_length_frame_skipped_witness:
  "Read 8 (events (reader (a_producer [Chunk epoch [1, 0, 0, 0, 0, 0, 0, 0, 2, 0, 0, 0]]))) =
     (([1, 0, 0, 0, 0, 0, 0, 0], None), [Chunk epoch [2, 0, 0, 0]]) \<and>
   BigEndian_Uint32 (drop 4 [1, 0, 0, 0, 0, 0, 0, 0]) = 0 \<and>
   state (a_producer [Chunk epoch [1, 0, 0, 0, 0, 0, 0, 0, 2, 0, 0, 0]]) = Running \<and>
   accepted (default_branch (a_world [])
      (a_producer [Chunk epoch [1, 0, 0, 0, 0, 0, 0, 0, 2, 0, 0, 0]])) = [] \<and>
   stderr (default_branch (a_world [])
      (a_producer [Chunk epoch [1, 0, 0, 0, 0, 0, 0, 0, 2, 0, 0, 0]])) = [] \<and>
   state (default_branch (a_world [])
      (a_producer [Chunk epoch [1, 0, 0, 0, 0, 0, 0, 0, 2, 0, 0, 0]])) = Running \<and>
   events (reader (default_branch (a_world [])
      (a_producer [Chunk epoch [1, 0, 0, 0, 0, 0, 0, 0, 2, 0, 0, 0]]))) =
     [Chunk epoch [2, 0, 0, 0]]"
  using zero_length_frame_skipped [of
      "a_producer [Chunk epoch [1, 0, 0, 0, 0, 0, 0, 0, 2, 0, 0, 0]]"
      "[1, 0, 0, 0, 0, 0, 0, 0]" "[Chunk epoch [2, 0, 0, 0]]" "a_world []" "[]" "[]"]
  by (simp add: a_producer_def a_world_def spawn_def BEGIN_def world_of_def BigEndian_Uint32_def)

text \<open>
  Claim C8. A failed read of the header whose message does not mention a closed
  network connection, and any failed read of the payload, end the pass without a
  delivery: the worker keeps its state (so a running worker keeps running), issues no
  new request, and the stream has moved past the failed read, where the next pass
  reads a header again. A failed payload read also writes to \<^verbatim>\<open>os.Stderr\<close>.
  Whatever the stream holds, no pass ends the worker unless the engine refuses a new
  \<^verbatim>\<open>ContainerLogs\<close> request: when it never does, a running worker is still
  running after any number of passes.
\<close>

theorem read_error_skipped:
  assumes "Read 8 (events (reader p)) = ((h, herr), rest)"
  shows "(\<forall>msg. herr = Some msg \<and> \<not> Contains msg ''use of closed network connection'' \<longrightarrow>
            default_branch w p = p\<lparr>reader := (reader p)\<lparr>events := rest\<rparr>\<rparr>) \<and>
         (\<forall>msg b rest'. herr = None \<and> BigEndian_Uint32 (drop 4 h) \<noteq> 0 \<and>
            Read (unat (BigEndian_Uint32 (drop 4 h))) rest = ((b, Some msg), rest') \<longrightarrow>
            (\<exists>lines. default_branch w p =
               p\<lparr>reader := (reader p)\<lparr>events := rest'\<rparr>, stderr := stderr p @ lines\<rparr>) \<and>
            state (default_branch w p) = state p \<and>
            accepted (default_branch w p) = accepted p \<and>
            logs_requests (default_branch w p) = logs_requests p) \<and>
         (state p = Running \<longrightarrow>
            iterate w (regs # sched) p = iterate w sched (default_branch w (follow regs p))) \<and>
         ((\<forall>k i options. \<exists>s. ContainerLogs w k i options = Inr s) \<longrightarrow>
            state (iterate w sched p) = state p)"
proof -
  have "(\<forall>k i options. \<exists>s. ContainerLogs w k i options = Inr s) \<longrightarrow>
      state (iterate w sched p) = state p"
    using iterate_state[of w sched p] by (rule impI)
  with assms show ?thesis
    by (auto simp add: next_frame_def default_branch_def Let_def)
qed

theorem read_error_skipped_witness:
  "Read 8 (events (reader (a_producer
       [Fail ''unexpected EOF'', Chunk epoch [1, 0, 0, 0, 0, 0, 0, 1, 97]]))) =
     ((replicate 8 0, Some ''unexpected EOF''), [Chunk epoch [1, 0, 0, 0, 0, 0, 0, 1, 97]]) \<and>
   \<not> Contains ''unexpected EOF'' ''use of closed network connection'' \<and>
   state (default_branch (a_world [])
       (a_producer [Fail ''unexpected EOF'', Chunk epoch [1, 0, 0, 0, 0, 0, 0, 1, 97]])) =
     Running \<and>
   events (reader (default_branch (a_world [])
       (a_producer [Fail ''unexpected EOF'', Chunk epoch [1, 0, 0, 0, 0, 0, 0, 1, 97]]))) =
     [Chunk epoch [1, 0, 0, 0, 0, 0, 0, 1, 97]] \<and>
   received 0 (worker
       (a_world [Fail ''unexpected EOF'', Chunk epoch [1, 0, 0, 0, 0, 0, 0, 1, 97]])
       [[], []] a_container) = [\<lparr>LogType = StdoutLog, Content = [97]\<rparr>] \<and>
   Read 8 (events (reader (a_producer
       [Chunk epoch [1, 0, 0, 0, 0, 0, 0, 1], Fail ''unexpected EOF'',
        Chunk epoch [2, 0, 0, 0, 0, 0, 0, 1, 98]]))) =
     (([1, 0, 0, 0, 0, 0, 0, 1], None),
      [Fail ''unexpected EOF'', Chunk epoch [2, 0, 0, 0, 0, 0, 0, 1, 98]]) \<and>
   BigEndian_Uint32 (drop 4 [1, 0, 0, 0, 0, 0, 0, 1]) = 1 \<and>
   Read 1 [Fail ''unexpected EOF'', Chunk epoch [2, 0, 0, 0, 0, 0, 0, 1, 98]] =
     (([0], Some ''unexpected EOF''), [Chunk epoch [2, 0, 0, 0, 0, 0, 0, 1, 98]]) \<and>
   state (default_branch (a_world [])
       (a_producer [Chunk epoch [1, 0, 0, 0, 0, 0, 0, 1], Fail ''unexpected EOF'',
          Chunk epoch [2, 0, 0, 0, 0, 0, 0, 1, 98]])) = Running \<and>
   accepted (default_branch (a_world [])
       (a_producer [Chunk epoch [1, 0, 0, 0, 0, 0, 0, 1], Fail ''unexpected EOF'',
          Chunk epoch [2, 0, 0, 0, 0, 0, 0, 1, 98]])) = [] \<and>
   received 0 (worker
       (a_world [Chunk epoch [1, 0, 0, 0, 0, 0, 0, 1], Fail ''unexpected EOF'',
          Chunk epoch [2, 0, 0, 0, 0, 0, 0, 1, 98]])
       [[], []] a_container) = [\<lparr>LogType = StderrLog, Content = [98]\<rparr>] \<and>
   state (iterate
       (a_world [Chunk epoch [1, 0, 0, 0, 0, 0, 0, 1], Fail ''unexpected EOF'',
          Chunk epoch [2, 0, 0, 0, 0, 0, 0, 1, 98]])
       [[], [], [], []]
       (a_producer [Chunk epoch [1, 0, 0, 0, 0, 0, 0, 1], Fail ''unexpected EOF'',
          Chunk epoch [2, 0, 0, 0, 0, 0, 0, 1, 98]])) = Running"
  using read_error_skipped [of
      "a_producer [Fail ''unexpected EOF'', Chunk epoch [1, 0, 0, 0, 0, 0, 0, 1, 97]]"
      "replicate 8 0" "Some ''unexpected EOF''"
      "[Chunk epoch [1, 0, 0, 0, 0, 0, 0, 1, 97]]" "a_world []" "[]" "[]"]
    read_error_skipped [of
      "a_producer [Chunk epoch [1, 0, 0, 0, 0, 0, 0, 1], Fail ''unexpected EOF'',
          Chunk epoch [2, 0, 0, 0, 0, 0, 0, 1, 98]]"
      "[1, 0, 0, 0, 0, 0, 0, 1]" None
      "[Fail ''unexpected EOF'', Chunk epoch [2, 0, 0, 0, 0, 0, 0, 1, 98]]"
      "a_world []" "[]" "[]"]
  by (simp add: run_worker)

text \<open>
  Claim C5, as the source has it. The kind of a delivered log is decided by byte 0 of
  the header as read: 1 gives stdout, 2 gives stderr, every value above 2 (3 among
  them) gives stdout, and 0 gives the empty string, the first entry of
  \<^verbatim>\<open>logTypes\<close>. So every log that a worker hands to a consumer has one of the three
  kinds empty, stdout, stderr.
\<close>

theorem delivered_kind:
  "(next_frame w p = (Some l, p') \<longrightarrow>
      LogType l =
        (let tag = fst (fst (Read 8 (events (reader p)))) ! 0
         in if tag = 0 then '''' else if tag = 2 then StderrLog else StdoutLog)) \<and>
   (\<forall>b \<in> set (broadcasts w sched p). LogType (fst b) \<in> {'''', StdoutLog, StderrLog}) \<and>
   (\<forall>a \<in> set (accepted (worker w sched c)). LogType (snd a) \<in> {'''', StdoutLog, StderrLog})"
proof -
  have kinds: "LogType (fst b) \<in> {'''', StdoutLog, StderrLog}"
    if "b \<in> set (broadcasts w sched q)" for b q
    using that
  proof (induction sched arbitrary: q)
    case Nil
    then show ?case by simp
  next
    case (Cons regs sched)
    have run: "state q = Running"
    proof (rule ccontr)
      assume "state q \<noteq> Running"
      with Cons.prems show False by simp
    qed
    obtain lo q' where nf: "next_frame w (follow regs q) = (lo, q')"
      by (cases "next_frame w (follow regs q)")
    show ?case
    proof (cases lo)
      case None
      with Cons.prems run nf have "b \<in> set (broadcasts w sched q')" by simp
      then show ?thesis by (rule Cons.IH)
    next
      case (Some l')
      with Cons.prems run nf
      consider "b = (l', consumers (container q'))"
        | "b \<in> set (broadcasts w sched (deliver l' q'))" by auto
      then show ?thesis
      proof cases
        case 1
        with next_frame_kind[OF nf[unfolded Some]] show ?thesis
          by (simp add: Let_def)
      next
        case 2
        then show ?thesis by (rule Cons.IH)
      qed
    qed
  qed
  have acc: "LogType (snd a) \<in> {'''', StdoutLog, StderrLog}"
    if "a \<in> set (accepted (iterate w sched (spawn w c)))" for a
  proof -
    have "accepted (spawn w c) = []"
      by (simp add: spawn_def BEGIN_keeps)
    with that obtain b where "b \<in> set (broadcasts w sched (spawn w c))" "snd a = fst b"
      by (auto simp: accepted_iterate)
    with kinds show ?thesis by metis
  qed
  have "accepted (worker w sched c) = accepted (iterate w sched (spawn w c))"
    by (simp add: worker_def stop_branch_def Let_def split: option.splits)
  with acc kinds next_frame_kind show ?thesis by auto
qed

theorem delivered_kind_witness:
  "next_frame (a_world []) (a_producer [Chunk epoch [3, 0, 0, 0, 0, 0, 0, 1, 97]]) =
     (Some \<lparr>LogType = StdoutLog, Content = [97]\<rparr>,
      (a_producer [Chunk epoch [3, 0, 0, 0, 0, 0, 0, 1, 97]])
        \<lparr>reader := \<lparr>events = [], Close_result = None\<rparr>,
         stderr := [''received invalid log type: 3'']\<rparr>) \<and>
   fst (fst (Read 8 (events (reader (a_producer [Chunk epoch [3, 0, 0, 0, 0, 0, 0, 1, 97]]))))) ! 0
     = 3 \<and>
   accepted (worker (a_world [Chunk epoch [3, 0, 0, 0, 0, 0, 0, 1, 97]]) [[]] a_container) =
     [(0, \<lparr>LogType = StdoutLog, Content = [97]\<rparr>), (1, \<lparr>LogType = StdoutLog, Content = [97]\<rparr>)] \<and>
   StdoutLog \<in> {'''', StdoutLog, StderrLog}"
  using delivered_kind [of "a_world []" "a_producer [Chunk epoch [3, 0, 0, 0, 0, 0, 0, 1, 97]]"
      "\<lparr>LogType = StdoutLog, Content = [97]\<rparr>"
      "(a_producer [Chunk epoch [3, 0, 0, 0, 0, 0, 0, 1, 97]])
        \<lparr>reader := \<lparr>events = [], Close_result = None\<rparr>,
         stderr := [''received invalid log type: 3'']\<rparr>"
      "[[]]" a_container]
  by (simp add: run_worker decimal_3)

text \<open>
  The claim as the spec states it fails on a header whose byte 0 is 0: the frame is
  delivered with the empty kind, which is neither stdout nor stderr.
\<close>

theorem tag_zero_kind_counterexample:
  "map (\<lambda>a. LogType (snd a))
     (accepted (worker (a_world [Chunk epoch [0, 0, 0, 0, 0, 0, 0, 1, 97]]) [[]] a_container)) =
     ['''', ''''] \<and>
   '''' \<noteq> StdoutLog \<and> '''' \<notin> {StdoutLog, StderrLog}"
  by (simp add: run_worker StdoutLog_def StderrLog_def)

text \<open>
  Claim C6. The source reads the payload with one \<^verbatim>\<open>Read\<close> into a buffer of \<open>n\<close>
  bytes and drops the number of bytes read. On a stream that hands over the header
  and the first byte of a two-byte payload, and the second byte later, the delivered
  content has length 2 but holds one byte of the payload and a zero, and the second
  byte is left in the stream, where the next pass takes it for the start of a header.
\<close>

theorem short_payload_read:
  "accepted (iterate (a_world []) [[]]
      (a_producer [Chunk epoch [1, 0, 0, 0, 0, 0, 0, 2, 97], Chunk epoch [98]])) =
     [(0, \<lparr>LogType = StdoutLog, Content = [97, 0]\<rparr>),
      (1, \<lparr>LogType = StdoutLog, Content = [97, 0]\<rparr>)] \<and>
   events (reader (iterate (a_world []) [[]]
      (a_producer [Chunk epoch [1, 0, 0, 0, 0, 0, 0, 2, 97], Chunk epoch [98]]))) =
     [Chunk epoch [98]] \<and>
   BigEndian_Uint32 (drop 4 [1, 0, 0, 0, 0, 0, 0, 2]) = 2"
  by (simp add: run_worker)

subsection \<open>Reconnecting\<close>

text \<open>
  Claim C2, as the source has it. When the read of the header fails with a message
  that contains \<^verbatim>\<open>use of closed network connection\<close>, the worker reads the clock
  and sends a new \<^verbatim>\<open>ContainerLogs\<close> request whose \<^verbatim>\<open>Since\<close> is that reading of
  \<^verbatim>\<open>time.Now()\<close>, printed as seconds, a dot and nine digits of nanoseconds; no
  \<^verbatim>\<open>Accept\<close> call is made in that pass. The printed value determines the seconds and
  the nanoseconds: two readings with the same text are the same reading. The time of
  the last byte read plays no part.
\<close>

theorem reconnect_since:
  assumes "Read 8 (events (reader p)) = ((h, Some msg), rest)"
    and "Contains msg ''use of closed network connection''"
  shows "logs_requests (default_branch w p) =
           logs_requests p @
             [(ID (container p),
               \<lparr>ShowStdout = True, ShowStderr = True, Follow = True,
                Since = since_of (Now w (ticks p))\<rparr>)] \<and>
         since (default_branch w p) = since_of (Now w (ticks p)) \<and>
         accepted (default_branch w p) = accepted p \<and>
         (\<forall>t. Nanosecond t < 10 ^ 9 \<and> Nanosecond (Now w (ticks p)) < 10 ^ 9 \<and>
              since_of t = since_of (Now w (ticks p)) \<longrightarrow> t = Now w (ticks p))"
proof -
  have "default_branch w p =
      BEGIN w (p\<lparr>reader := (reader p)\<lparr>events := rest\<rparr>,
                 since := since_of (Now w (ticks p)), ticks := Suc (ticks p)\<rparr>)"
    using assms by (simp add: default_branch_def next_frame_def)
  then have "logs_requests (default_branch w p) =
           logs_requests p @
             [(ID (container p),
               \<lparr>ShowStdout = True, ShowStderr = True, Follow = True,
                Since = since_of (Now w (ticks p))\<rparr>)] \<and>
         since (default_branch w p) = since_of (Now w (ticks p)) \<and>
         accepted (default_branch w p) = accepted p"
    by (auto simp: BEGIN_def Let_def split: sum.splits)
  moreover have "\<forall>t. Nanosecond t < 10 ^ 9 \<and> Nanosecond (Now w (ticks p)) < 10 ^ 9 \<and>
              since_of t = since_of (Now w (ticks p)) \<longrightarrow> t = Now w (ticks p)"
    using since_of_inj by blast
  ultimately show ?thesis by blast
qed

theorem reconnect_since_witness:
  "Read 8 (events (reader (a_producer [Fail ''read tcp: use of closed network connection'']))) =
     ((replicate 8 0, Some ''read tcp: use of closed network connection''), []) \<and>
   Contains ''read tcp: use of closed network connection'' ''use of closed network connection'' \<and>
   map (\<lambda>r. Since (snd r))
     (logs_requests (default_branch (world_of [] \<lparr>Unix = 5, Nanosecond = 7\<rparr>)
        (a_producer [Fail ''read tcp: use of closed network connection'']))) =
     ['''', ''5.000000007'']"
  using reconnect_since [of "a_producer [Fail ''read tcp: use of closed network connection'']"
      "replicate 8 0" "''read tcp: use of closed network connection''" "[]"
      "world_of [] \<lparr>Unix = 5, Nanosecond = 7\<rparr>"]
  by (simp add: a_producer_def a_world_def spawn_def BEGIN_def world_of_def since_of_5_7)

text \<open>
  The claim as the spec states it fails when the clock has moved on since the last
  byte was read: a frame read at second 1, then a closed connection noticed at second
  5 and 7 nanoseconds. The new request asks for the logs since the latter.
\<close>

theorem since_not_last_read_counterexample:
  "map (\<lambda>r. Since (snd r))
     (logs_requests (worker
        (world_of [Chunk \<lparr>Unix = 1, Nanosecond = 0\<rparr> [1, 0, 0, 0, 0, 0, 0, 1, 97],
                   Fail ''read tcp: use of closed network connection'']
           \<lparr>Unix = 5, Nanosecond = 7\<rparr>)
        [[], []] a_container)) = ['''', ''5.000000007''] \<and>
   last_read_time [Chunk \<lparr>Unix = 1, Nanosecond = 0\<rparr> [1, 0, 0, 0, 0, 0, 0, 1, 97],
                   Fail ''read tcp: use of closed network connection''] None =
     Some \<lparr>Unix = 1, Nanosecond = 0\<rparr> \<and>
   since_of \<lparr>Unix = 1, Nanosecond = 0\<rparr> = ''1.000000000'' \<and>
   ''5.000000007'' \<noteq> ''1.000000000''"
  by (simp add: run_worker since_of_5_7 since_of_1_0)

subsection \<open>Delivery to the consumers\<close>



subsection \<open>Stopping\<close>

text \<open>
  Claim C3, as the source has it. A call of \<^verbatim>\<open>StopLogProducer\<close> is blocked with no
  step left for any goroutine, hence forever, exactly when no worker of the container
  is in its loop: none was started, or each has taken an earlier signal. When a worker
  is in its loop the call returns whatever the interleaving, after at most one step
  for each busy worker and the send itself, and the send ends exactly one worker.
\<close>

theorem StopLogProducer_completion:
  "((successors (StopLogProducer_call # cs, ws) = []) = (\<forall>g \<in> set ws. g = Returned)) \<and>
   ((\<exists>g \<in> set ws. g \<noteq> Returned) \<longrightarrow>
      returns_within (count_list ws Busy) (StopLogProducer_call # cs, ws)) \<and>
   (\<forall>ws' \<in> set (StopLogProducer ws).
      count_list ws' Returned = Suc (count_list ws Returned) \<and> length ws' = length ws)"
proof -
  have "returns_within (count_list ws Busy) (StopLogProducer_call # cs, ws)"
    if "\<exists>g \<in> set ws. g \<noteq> Returned"
  proof -
    from that have "Busy \<in> set ws \<or> AtSelect \<in> set ws"
      using all_Returned[of ws] by blast
    then show ?thesis by (rule stop_returns[OF refl])
  qed
  with stop_blocked[of cs ws] StopLogProducer_step[of _ ws] show ?thesis by blast
qed

theorem StopLogProducer_completion_witness:
  "successors ([StopLogProducer_call], [Returned]) = [] \<and>
   Busy \<in> set [Returned, Busy] \<and>
   returns_within (Suc 0) ([StopLogProducer_call], [Returned, Busy]) \<and>
   successors ([StopLogProducer_call], [Returned, Busy]) =
     [([StopLogProducer_call], [Returned, AtSelect])] \<and>
   successors ([StopLogProducer_call], [Returned, AtSelect]) = [([], [Returned, Returned])] \<and>
   StopLogProducer [Returned, AtSelect] = [[Returned, Returned]] \<and>
   count_list [Returned, Returned] Returned = Suc (count_list [Returned, AtSelect] Returned)"
  using StopLogProducer_completion [of "[]" "[Returned]"]
    StopLogProducer_completion [of "[]" "[Returned, Busy]"]
    StopLogProducer_completion [of "[]" "[Returned, AtSelect]"]
  by simp

text \<open>
  The claim as the spec states it fails in both of its cases. A stop without a start
  has no successor. A start followed by two stops has one run only: the worker comes to
  its \<^verbatim>\<open>select\<close>, takes the first signal and returns, and the second stop is left
  with no successor.
\<close>

theorem StopLogProducer_blocks_counterexample:
  "successors ([StopLogProducer_call], []) = [] \<and>
   successors ([StartLogProducer_call, StopLogProducer_call, StopLogProducer_call], []) =
     [([StopLogProducer_call, StopLogProducer_call], [Busy])] \<and>
   successors ([StopLogProducer_call, StopLogProducer_call], [Busy]) =
     [([StopLogProducer_call, StopLogProducer_call], [AtSelect])] \<and>
   successors ([StopLogProducer_call, StopLogProducer_call], [AtSelect]) =
     [([StopLogProducer_call], [Returned])] \<and>
   successors ([StopLogProducer_call], [Returned]) = []"
  by (simp add: StartLogProducer_def)

subsection \<open>Labels of created containers and networks\<close>

text \<open>
  Claim C1, as the source has it. When the request does not set \<^verbatim>\<open>SkipReaper\<close>
  and the create call reaches the engine, the reaper has been created and connected
  before, and the label map of the call is the requested labels together with the
  reaper's labels for the keys that the request does not use: it has every key of the
  reaper's labels, with the reaper's value unless the request has its own value for
  that key, which stays. This holds for containers and, through the shared map, for
  networks. With \<^verbatim>\<open>SkipReaper\<close> set no reaper is created.
\<close>

theorem reaper_labels_at_creation:
  "(\<not> ContainerRequest.SkipReaper creq \<and>
    ContainerCreate_call m \<in> set (ext_calls (CreateContainer w p h creq)) \<longrightarrow>
      ext_calls (CreateContainer w p h creq) =
        [NewReaper_call (uuid_New w) (ContainerRequest.ReaperImage creq), Connect_call,
         ContainerCreate_call m] \<and>
      m = map_of (reaper_Labels w) ++ requested h (ContainerRequest.Labels creq) \<and>
      fst ` set (reaper_Labels w) \<subseteq> dom m \<and>
      (\<forall>k. requested h (ContainerRequest.Labels creq) k = None \<longrightarrow>
           m k = map_of (reaper_Labels w) k) \<and>
      (\<forall>k v. requested h (ContainerRequest.Labels creq) k = Some v \<longrightarrow> m k = Some v)) \<and>
   (\<not> NetworkRequest.SkipReaper nreq \<and>
    NetworkCreate_call n m' \<in> set (ext_calls (CreateNetwork w p h nreq)) \<longrightarrow>
      ext_calls (CreateNetwork w p h nreq) =
        [NewReaper_call (uuid_New w) (NetworkRequest.ReaperImage nreq), Connect_call,
         NetworkCreate_call n m'] \<and>
      m' = map_of (reaper_Labels w) ++ requested h (NetworkRequest.Labels nreq) \<and>
      fst ` set (reaper_Labels w) \<subseteq> dom m' \<and>
      (\<forall>k. requested h (NetworkRequest.Labels nreq) k = None \<longrightarrow>
           m' k = map_of (reaper_Labels w) k) \<and>
      (\<forall>k v. requested h (NetworkRequest.Labels nreq) k = Some v \<longrightarrow> m' k = Some v)) \<and>
   (ContainerRequest.SkipReaper creq \<longrightarrow>
      (\<forall>s i. NewReaper_call s i \<notin> set (ext_calls (CreateContainer w p h creq)))) \<and>
   (NetworkRequest.SkipReaper nreq \<longrightarrow>
      (\<forall>s i. NewReaper_call s i \<notin> set (ext_calls (CreateNetwork w p h nreq))))"
proof -
  have merged: "fst ` set kvs \<subseteq> dom (map_of kvs ++ r) \<and>
      (\<forall>k. r k = None \<longrightarrow> (map_of kvs ++ r) k = map_of kvs k) \<and>
      (\<forall>k v. r k = Some v \<longrightarrow> (map_of kvs ++ r) k = Some v)"
    for kvs :: "(string \<times> string) list" and r
  proof -
    have "fst ` set kvs \<subseteq> dom (map_of kvs ++ r)"
      by (simp add: dom_map_of_conv_image_fst)
    moreover have "\<forall>k. r k = None \<longrightarrow> (map_of kvs ++ r) k = map_of kvs k"
      by (simp add: map_add_def)
    moreover have "\<forall>k v. r k = Some v \<longrightarrow> (map_of kvs ++ r) k = Some v"
      by (simp add: map_add_def)
    ultimately show ?thesis by blast
  qed
  have skipc: "\<forall>s i. NewReaper_call s i \<notin> set (ext_calls (CreateContainer w p h creq))"
    if "ContainerRequest.SkipReaper creq"
    using that
    by (cases "ensure_default_network w p"; cases "ContainerRequest.Labels creq";
        cases "prepare w"; cases "ContainerCreate_result w"; cases "after_create_result w";
        simp add: CreateContainer_def Let_def make_map_def)
  have skipn: "\<forall>s i. NewReaper_call s i \<notin> set (ext_calls (CreateNetwork w p h nreq))"
    if "NetworkRequest.SkipReaper nreq"
    using that
    by (cases "ensure_default_network w p"; cases "NetworkRequest.Labels nreq";
        cases "NetworkCreate_result w"; simp add: CreateNetwork_def Let_def make_map_def)
  have c: "ext_calls (CreateContainer w p h creq) =
        [NewReaper_call (uuid_New w) (ContainerRequest.ReaperImage creq), Connect_call,
         ContainerCreate_call m] \<and>
      m = map_of (reaper_Labels w) ++ requested h (ContainerRequest.Labels creq) \<and>
      fst ` set (reaper_Labels w) \<subseteq> dom m \<and>
      (\<forall>k. requested h (ContainerRequest.Labels creq) k = None \<longrightarrow>
           m k = map_of (reaper_Labels w) k) \<and>
      (\<forall>k v. requested h (ContainerRequest.Labels creq) k = Some v \<longrightarrow> m k = Some v)"
    if "\<not> ContainerRequest.SkipReaper creq"
      and "ContainerCreate_call m \<in> set (ext_calls (CreateContainer w p h creq))"
  proof -
    note l = CreateContainer_labels[OF that]
    have k: "fst ` set (reaper_Labels w) \<subseteq> dom m \<and>
      (\<forall>k. requested h (ContainerRequest.Labels creq) k = None \<longrightarrow>
           m k = map_of (reaper_Labels w) k) \<and>
      (\<forall>k v. requested h (ContainerRequest.Labels creq) k = Some v \<longrightarrow> m k = Some v)"
      unfolding l(1) by (rule merged)
    show ?thesis by (rule conjI[OF l(2) conjI[OF l(1) k]])
  qed
  have n: "ext_calls (CreateNetwork w p h nreq) =
        [NewReaper_call (uuid_New w) (NetworkRequest.ReaperImage nreq), Connect_call,
         NetworkCreate_call n m'] \<and>
      m' = map_of (reaper_Labels w) ++ requested h (NetworkRequest.Labels nreq) \<and>
      fst ` set (reaper_Labels w) \<subseteq> dom m' \<and>
      (\<forall>k. requested h (NetworkRequest.Labels nreq) k = None \<longrightarrow>
           m' k = map_of (reaper_Labels w) k) \<and>
      (\<forall>k v. requested h (NetworkRequest.Labels nreq) k = Some v \<longrightarrow> m' k = Some v)"
    if "\<not> NetworkRequest.SkipReaper nreq"
      and "NetworkCreate_call n m' \<in> set (ext_calls (CreateNetwork w p h nreq))"
  proof -
    note l = CreateNetwork_labels[OF that]
    have k: "fst ` set (reaper_Labels w) \<subseteq> dom m' \<and>
      (\<forall>k. requested h (NetworkRequest.Labels nreq) k = None \<longrightarrow>
           m' k = map_of (reaper_Labels w) k) \<and>
      (\<forall>k v. requested h (NetworkRequest.Labels nreq) k = Some v \<longrightarrow> m' k = Some v)"
      unfolding l(1) by (rule merged)
    show ?thesis by (rule conjI[OF l(2) conjI[OF l(1) k]])
  qed
  have C: "\<not> ContainerRequest.SkipReaper creq \<and>
      ContainerCreate_call m \<in> set (ext_calls (CreateContainer w p h creq)) \<longrightarrow>
      ext_calls (CreateContainer w p h creq) =
        [NewReaper_call (uuid_New w) (ContainerRequest.ReaperImage creq), Connect_call,
         ContainerCreate_call m] \<and>
      m = map_of (reaper_Labels w) ++ requested h (ContainerRequest.Labels creq) \<and>
      fst ` set (reaper_Labels w) \<subseteq> dom m \<and>
      (\<forall>k. requested h (ContainerRequest.Labels creq) k = None \<longrightarrow>
           m k = map_of (reaper_Labels w) k) \<and>
      (\<forall>k v. requested h (ContainerRequest.Labels creq) k = Some v \<longrightarrow> m k = Some v)"
  proof (rule impI)
    assume a: "\<not> ContainerRequest.SkipReaper creq \<and>
      ContainerCreate_call m \<in> set (ext_calls (CreateContainer w p h creq))"
    show "ext_calls (CreateContainer w p h creq) =
        [NewReaper_call (uuid_New w) (ContainerRequest.ReaperImage creq), Connect_call,
         ContainerCreate_call m] \<and>
      m = map_of (reaper_Labels w) ++ requested h (ContainerRequest.Labels creq) \<and>
      fst ` set (reaper_Labels w) \<subseteq> dom m \<and>
      (\<forall>k. requested h (ContainerRequest.Labels creq) k = None \<longrightarrow>
           m k = map_of (reaper_Labels w) k) \<and>
      (\<forall>k v. requested h (ContainerRequest.Labels creq) k = Some v \<longrightarrow> m k = Some v)"
      by (rule c[OF conjunct1[OF a] conjunct2[OF a]])
  qed
  have N: "\<not> NetworkRequest.SkipReaper nreq \<and>
      NetworkCreate_call n m' \<in> set (ext_calls (CreateNetwork w p h nreq)) \<longrightarrow>
      ext_calls (CreateNetwork w p h nreq) =
        [NewReaper_call (uuid_New w) (NetworkRequest.ReaperImage nreq), Connect_call,
         NetworkCreate_call n m'] \<and>
      m' = map_of (reaper_Labels w) ++ requested h (NetworkRequest.Labels nreq) \<and>
      fst ` set (reaper_Labels w) \<subseteq> dom m' \<and>
      (\<forall>k. requested h (NetworkRequest.Labels nreq) k = None \<longrightarrow>
           m' k = map_of (reaper_Labels w) k) \<and>
      (\<forall>k v. requested h (NetworkRequest.Labels nreq) k = Some v \<longrightarrow> m' k = Some v)"
  proof (rule impI)
    assume a: "\<not> NetworkRequest.SkipReaper nreq \<and>
      NetworkCreate_call n m' \<in> set (ext_calls (CreateNetwork w p h nreq))"
    show "ext_calls (CreateNetwork w p h nreq) =
        [NewReaper_call (uuid_New w) (NetworkRequest.ReaperImage nreq), Connect_call,
         NetworkCreate_call n m'] \<and>
      m' = map_of (reaper_Labels w) ++ requested h (NetworkRequest.Labels nreq) \<and>
      fst ` set (reaper_Labels w) \<subseteq> dom m' \<and>
      (\<forall>k. requested h (NetworkRequest.Labels nreq) k = None \<longrightarrow>
           m' k = map_of (reaper_Labels w) k) \<and>
      (\<forall>k v. requested h (NetworkRequest.Labels nreq) k = Some v \<longrightarrow> m' k = Some v)"
      by (rule n[OF conjunct1[OF a] conjunct2[OF a]])
  qed
  have Sc: "ContainerRequest.SkipReaper creq \<longrightarrow>
      (\<forall>s i. NewReaper_call s i \<notin> set (ext_calls (CreateContainer w p h creq)))"
    by (rule impI) (rule skipc)
  have Sn: "NetworkRequest.SkipReaper nreq \<longrightarrow>
      (\<forall>s i. NewReaper_call s i \<notin> set (ext_calls (CreateNetwork w p h nreq)))"
    by (rule impI) (rule skipn)
  show ?thesis
    by (rule conjI[OF C conjI[OF N conjI[OF Sc Sn]]])
qed

theorem reaper_labels_at_creation_witness:
  "\<not> ContainerRequest.SkipReaper (a_container_request None) \<and>
   \<not> NetworkRequest.SkipReaper (a_network_request (Some 0)) \<and>
   ext_calls (CreateContainer a_create_world a_provider a_heap (a_container_request None)) =
     [NewReaper_call ''S1'' '''', Connect_call,
      ContainerCreate_call [''managed'' \<mapsto> ''true'', ''session'' \<mapsto> ''S1'']] \<and>
   ext_calls (CreateNetwork a_create_world a_provider a_heap (a_network_request (Some 0))) =
     [NewReaper_call ''S1'' '''', Connect_call,
      NetworkCreate_call ''n'' [''managed'' \<mapsto> ''true'', ''session'' \<mapsto> ''mine'']] \<and>
   ContainerRequest.SkipReaper
     ((a_container_request (Some 0))\<lparr>ContainerRequest.SkipReaper := True\<rparr>) \<and>
   NetworkRequest.SkipReaper
     ((a_network_request (Some 0))\<lparr>NetworkRequest.SkipReaper := True\<rparr>) \<and>
   ext_calls (CreateContainer a_create_world a_provider a_heap
     ((a_container_request (Some 0))\<lparr>ContainerRequest.SkipReaper := True\<rparr>)) =
     [ContainerCreate_call [''session'' \<mapsto> ''mine'']] \<and>
   ext_calls (CreateNetwork a_create_world a_provider a_heap
     ((a_network_request (Some 0))\<lparr>NetworkRequest.SkipReaper := True\<rparr>)) =
     [NetworkCreate_call ''n'' [''session'' \<mapsto> ''mine'']]"
proof -
  have c: "ext_calls (CreateContainer a_create_world a_provider a_heap (a_container_request None)) =
     [NewReaper_call ''S1'' '''', Connect_call,
      ContainerCreate_call (map_of [(''managed'', ''true''), (''session'', ''S1'')] ++ Map.empty)]"
    by (simp add: CreateContainer_def a_create_world_def a_provider_def a_heap_def
        a_container_request_def ensure_default_network_def make_map_def connect_reaper_def
        prepare_def merge_labels_eq)
  have n: "ext_calls (CreateNetwork a_create_world a_provider a_heap (a_network_request (Some 0))) =
     [NewReaper_call ''S1'' '''', Connect_call,
      NetworkCreate_call ''n''
        (map_of [(''managed'', ''true''), (''session'', ''S1'')] ++ [''session'' \<mapsto> ''mine''])]"
    by (simp add: CreateNetwork_def a_create_world_def a_provider_def a_heap_def
        a_network_request_def ensure_default_network_def make_map_def connect_reaper_def
        merge_labels_eq)
  have cs: "ext_calls (CreateContainer a_create_world a_provider a_heap
     ((a_container_request (Some 0))\<lparr>ContainerRequest.SkipReaper := True\<rparr>)) =
     [ContainerCreate_call [''session'' \<mapsto> ''mine'']]"
    by (simp add: CreateContainer_def a_create_world_def a_provider_def a_heap_def
        a_container_request_def ensure_default_network_def prepare_def)
  have ns: "ext_calls (CreateNetwork a_create_world a_provider a_heap
     ((a_network_request (Some 0))\<lparr>NetworkRequest.SkipReaper := True\<rparr>)) =
     [NetworkCreate_call ''n'' [''session'' \<mapsto> ''mine'']]"
    by (simp add: CreateNetwork_def a_create_world_def a_provider_def a_heap_def
        a_network_request_def ensure_default_network_def)
  have m1: "map_of [(''managed'', ''true''), (''session'', ''S1'')] ++ Map.empty =
      [''managed'' \<mapsto> ''true'', ''session'' \<mapsto> ''S1'']"
    by (rule ext) simp
  have m2: "map_of [(''managed'', ''true''), (''session'', ''S1'')] ++ [''session'' \<mapsto> ''mine''] =
      [''managed'' \<mapsto> ''true'', ''session'' \<mapsto> ''mine'']"
    by (rule ext) (simp add: map_add_def)
  show ?thesis
    using reaper_labels_at_creation [of "a_container_request None"
        "[''managed'' \<mapsto> ''true'', ''session'' \<mapsto> ''S1'']" a_create_world a_provider a_heap
        "a_network_request (Some 0)" "''n''"
        "[''managed'' \<mapsto> ''true'', ''session'' \<mapsto> ''mine'']"]
      reaper_labels_at_creation [of
        "(a_container_request (Some 0))\<lparr>ContainerRequest.SkipReaper := True\<rparr>"
        "[''session'' \<mapsto> ''mine'']" a_create_world a_provider a_heap
        "(a_network_request (Some 0))\<lparr>NetworkRequest.SkipReaper := True\<rparr>" "''n''"
        "[''session'' \<mapsto> ''mine'']"]
      c n cs ns m1 m2
    by (simp add: a_container_request_def a_network_request_def)
qed

text \<open>
  The claim as the spec states it fails for a request that has its own value under a
  key of the reaper's labels: the reaper's pair for that key is not in the map that
  reaches the engine.
\<close>

theorem request_label_wins_counterexample:
  "ext_calls (CreateContainer a_create_world a_provider a_heap (a_container_request (Some 0))) =
     [NewReaper_call ''S1'' '''', Connect_call,
      ContainerCreate_call [''managed'' \<mapsto> ''true'', ''session'' \<mapsto> ''mine'']] \<and>
   (''session'', ''S1'') \<in> set (reaper_Labels a_create_world) \<and>
   [''managed'' \<mapsto> ''true'', ''session'' \<mapsto> ''mine''] ''session'' \<noteq> Some ''S1'' \<and>
   \<not> ContainerRequest.SkipReaper (a_container_request (Some 0))"
proof -
  have m2: "map_of [(''managed'', ''true''), (''session'', ''S1'')] ++ [''session'' \<mapsto> ''mine''] =
      [''managed'' \<mapsto> ''true'', ''session'' \<mapsto> ''mine'']"
    by (rule ext) (simp add: map_add_def)
  have "ext_calls (CreateContainer a_create_world a_provider a_heap (a_container_request (Some 0))) =
     [NewReaper_call ''S1'' '''', Connect_call,
      ContainerCreate_call
        (map_of [(''managed'', ''true''), (''session'', ''S1'')] ++ [''session'' \<mapsto> ''mine''])]"
    by (simp add: CreateContainer_def a_create_world_def a_provider_def a_heap_def
        a_container_request_def ensure_default_network_def make_map_def connect_reaper_def
        prepare_def merge_labels_eq)
  then show ?thesis
    by (simp add: m2 a_create_world_def a_container_request_def)
qed

end
